theory Spec2Isabelle
  imports Complex_Main "HOL-Library.Word" "HOL-Library.AList" "HOL-Library.Sublist"
begin

section \<open>Strings and values of the host language\<close>

text \<open>
  A JavaScript string is a sequence of 16-bit code units; \<open>length\<close> counts code
  units, as \<open>.length\<close> does.
\<close>

type_synonym jstr = "16 word list"

definition ascii :: "string \<Rightarrow> jstr" where
  "ascii s = map (\<lambda>c. of_nat (of_char c)) s"

text \<open>
  The values handed to the store: \<open>undefined\<close>, and the values the store supports,
  which are \<open>null\<close>, numbers, booleans, strings, arrays and plain objects, that is, the
  values \<open>JSON.stringify\<close> serializes. Values
  on which \<open>JSON.stringify\<close> throws (an object that contains itself, a BigInt) are not
  represented. Numbers are modelled as reals (NaN and the infinities are not
  represented). An object lists its own enumerable properties in order, each key once.
\<close>

datatype jsval =
    Undefined
  | Null
  | Num real
  | Bool bool
  | Str jstr
  | Arr "jsval list"
  | Obj "(jstr \<times> jsval) list"

text \<open>
  The built-ins of the language that the store calls and that are not part of the
  repository: \<open>JSON.stringify\<close>, \<open>JSON.parse\<close> (\<open>None\<close> when it throws a
  SyntaxError), the conversion of a number to a string, and the regular expressions:
  \<open>RegExp_match source\<close> is \<open>None\<close> when \<open>new RegExp(source)\<close> throws a SyntaxError,
  and otherwise gives, for a string, \<open>None\<close> when \<open>match\<close> finds no match and else the
  value of \<open>match[1] || match[2]\<close>.
\<close>

record builtins =
  JSON_stringify :: "jsval \<Rightarrow> jstr"
  JSON_parse :: "jstr \<Rightarrow> jsval option"
  Number_toString :: "real \<Rightarrow> jstr"
  RegExp_match :: "jstr \<Rightarrow> (jstr \<Rightarrow> jsval option) option"

definition typeof_object :: "jsval \<Rightarrow> bool" where
  "typeof_object v = (case v of Null \<Rightarrow> True | Arr _ \<Rightarrow> True | Obj _ \<Rightarrow> True | _ \<Rightarrow> False)"

definition typeof_string :: "jsval \<Rightarrow> bool" where
  "typeof_string v = (case v of Str _ \<Rightarrow> True | _ \<Rightarrow> False)"

text \<open>Truthiness, as the conditional operator of \<open>get\<close> tests it.\<close>

definition truthy :: "jsval \<Rightarrow> bool" where
  "truthy v = (case v of Undefined \<Rightarrow> False | Null \<Rightarrow> False | Num r \<Rightarrow> r \<noteq> 0
     | Bool b \<Rightarrow> b | Str s \<Rightarrow> s \<noteq> [] | Arr _ \<Rightarrow> True | Obj _ \<Rightarrow> True)"

text \<open>Joining the pieces of an array with commas, as \<open>Array.prototype.join\<close> does.\<close>

fun join_comma :: "jstr list \<Rightarrow> jstr" where
  "join_comma [] = []"
| "join_comma [x] = x"
| "join_comma (x # y # ys) = x @ ascii '','' @ join_comma (y # ys)"

text \<open>
  The string a value becomes when it is appended to a string with \<open>+=\<close> or handed to
  \<open>JSON.parse\<close>.
\<close>

fun to_string :: "builtins \<Rightarrow> jsval \<Rightarrow> jstr" where
  "to_string B Undefined = ascii ''undefined''"
| "to_string B Null = ascii ''null''"
| "to_string B (Num r) = Number_toString B r"
| "to_string B (Bool b) = (if b then ascii ''true'' else ascii ''false'')"
| "to_string B (Str s) = s"
| "to_string B (Arr xs) =
     join_comma (map (\<lambda>x. if x = Undefined \<or> x = Null then [] else to_string B x) xs)"
| "to_string B (Obj kvs) = ascii ''[object Object]''"

text \<open>\<open>String.prototype.substring\<close> on indices that are natural numbers.\<close>

definition substring :: "jstr \<Rightarrow> nat \<Rightarrow> nat \<Rightarrow> jstr" where
  "substring str a b = take (max a b - min a b) (drop (min a b) str)"

text \<open>\<open>String.prototype.substr(start, length)\<close> on natural numbers.\<close>

definition substr :: "jstr \<Rightarrow> nat \<Rightarrow> nat \<Rightarrow> jstr" where
  "substr str start len = take len (drop start str)"

text \<open>\<open>String.prototype.slice\<close> on indices that are natural numbers.\<close>

definition slice :: "jstr \<Rightarrow> nat \<Rightarrow> nat \<Rightarrow> jstr" where
  "slice str a b = take (b - a) (drop a str)"

definition startsWith :: "jstr \<Rightarrow> jstr \<Rightarrow> bool" where
  "startsWith s p = prefix p s"

text \<open>White space and line terminators, which \<open>trim\<close> removes at both ends.\<close>

definition is_space :: "16 word \<Rightarrow> bool" where
  "is_space c = (c \<in> {0x09, 0x0A, 0x0B, 0x0C, 0x0D, 0x20, 0xA0, 0x1680,
     0x2028, 0x2029, 0x202F, 0x205F, 0x3000, 0xFEFF} \<or> (0x2000 \<le> c \<and> c \<le> 0x200A))"

definition trim :: "jstr \<Rightarrow> jstr" where
  "trim s = rev (dropWhile is_space (rev (dropWhile is_space s)))"

text \<open>The decimal digits of a natural number, as a template literal prints an index.\<close>

definition digit :: "nat \<Rightarrow> 16 word" where
  "digit d = of_nat (48 + d)"

function show_nat :: "nat \<Rightarrow> jstr" where
  "show_nat n = (if n < 10 then [digit n] else show_nat (n div 10) @ [digit (n mod 10)])"
  by pat_completeness auto
termination
  by (relation "measure id") auto

declare show_nat.simps [simp del]

section \<open>The property store of the host\<close>

text \<open>
  The dynamic properties of a source (the world or an entity): the entries in the
  order the host lists them, and the log of every \<open>setDynamicProperty\<close> call, oldest
  first. Setting a property to \<open>undefined\<close> removes it. The host holds numbers,
  booleans, strings and vectors; its size limit is not modelled.
\<close>

record substrate =
  props :: "(jstr \<times> jsval) list"
  writes :: "(jstr \<times> jsval) list"

definition setDynamicProperty :: "jstr \<Rightarrow> jsval \<Rightarrow> substrate \<Rightarrow> substrate" where
  "setDynamicProperty ident v s =
     s\<lparr>props := (if v = Undefined then AList.delete ident (props s)
                 else AList.update ident v (props s)),
       writes := writes s @ [(ident, v)]\<rparr>"

definition getDynamicProperty :: "substrate \<Rightarrow> jstr \<Rightarrow> jsval" where
  "getDynamicProperty s ident = (case map_of (props s) ident of None \<Rightarrow> Undefined | Some v \<Rightarrow> v)"

definition getDynamicPropertyIds :: "substrate \<Rightarrow> jstr list" where
  "getDynamicPropertyIds s = map fst (props s)"

section \<open>The Database class\<close>

definition MAX_CHUNK_SIZE :: nat where
  "MAX_CHUNK_SIZE = 32767"

definition INTERNAL_DB_PREFIX :: jstr where
  "INTERNAL_DB_PREFIX = [0xA7, 0x258C]"

definition KEY_TYPE_NATIVE :: jstr where
  "KEY_TYPE_NATIVE = ascii ''N_''"

definition KEY_TYPE_STRING :: jstr where
  "KEY_TYPE_STRING = ascii ''S_''"

definition KEY_TYPE_META_CHUNK :: jstr where
  "KEY_TYPE_META_CHUNK = ascii ''M_''"

definition KEY_TYPE_DATA_CHUNK :: jstr where
  "KEY_TYPE_DATA_CHUNK = ascii ''D_''"

datatype error = InvalidDatabaseId | InvalidKey | PatternSyntaxError

text \<open>
  The fields of an instance. The cache is a \<open>Map\<close> (a key may be cached with the
  value \<open>undefined\<close>); the index is a \<open>Set\<close>, which keeps insertion order.
\<close>

record database =
  storageSource :: nat
  databaseId :: jstr
  fullPrefixBase :: jstr
  dataCache :: "jstr \<rightharpoonup> jsval"
  knownKeys :: "jstr list"
  autoCache :: bool

text \<open>\<open>Set.prototype.add\<close> and \<open>Set.prototype.delete\<close> on the index.\<close>

definition set_add :: "jstr \<Rightarrow> jstr list \<Rightarrow> jstr list" where
  "set_add k ks = (if k \<in> set ks then ks else ks @ [k])"

definition set_delete :: "jstr \<Rightarrow> jstr list \<Rightarrow> jstr list" where
  "set_delete k ks = removeAll k ks"

definition buildKey :: "database \<Rightarrow> jstr \<Rightarrow> jstr \<Rightarrow> nat option \<Rightarrow> jstr" where
  "buildKey db key type index =
     (if type = KEY_TYPE_DATA_CHUNK
      then fullPrefixBase db @ type @ key @ ascii ''_'' @
             (case index of None \<Rightarrow> ascii ''undefined'' | Some i \<Rightarrow> show_nat i)
      else fullPrefixBase db @ type @ key)"

function split_from :: "jstr \<Rightarrow> nat \<Rightarrow> jstr list" where
  "split_from str i =
     (if i < length str
      then substring str i (i + MAX_CHUNK_SIZE) # split_from str (i + MAX_CHUNK_SIZE)
      else [])"
  by pat_completeness auto
termination
  by (relation "measure (\<lambda>(str, i). length str - i)") (auto simp: MAX_CHUNK_SIZE_def)

declare split_from.simps [simp del]

definition splitIntoChunks :: "jstr \<Rightarrow> jstr list" where
  "splitIntoChunks str = split_from str 0"

definition isVector :: "jsval \<Rightarrow> bool" where
  "isVector v =
     (truthy v \<and>
      (case v of
         Obj kvs \<Rightarrow>
           list_all (\<lambda>k. case map_of kvs k of Some (Num _) \<Rightarrow> True | _ \<Rightarrow> False)
             [ascii ''x'', ascii ''y'', ascii ''z''] \<and>
           length kvs = 3
       | _ \<Rightarrow> False))"

definition cacheValue :: "database \<Rightarrow> jstr \<Rightarrow> jsval \<Rightarrow> jsval \<times> database" where
  "cacheValue db key v =
     (v, if autoCache db then db\<lparr>dataCache := (dataCache db)(key \<mapsto> v)\<rparr> else db)"

definition checkKeyExists :: "database \<Rightarrow> substrate \<Rightarrow> jstr \<Rightarrow> bool" where
  "checkKeyExists db s key =
     list_ex (\<lambda>t. getDynamicProperty s (buildKey db key t None) \<noteq> Undefined)
       [KEY_TYPE_NATIVE, KEY_TYPE_STRING, KEY_TYPE_META_CHUNK]"

text \<open>
  The number of rounds of \<open>for (let i = 0; i < chunkCount; i++)\<close>: the indices
  \<open>0, 1, ...\<close> below the count.
\<close>

definition loop_rounds :: "real \<Rightarrow> nat" where
  "loop_rounds chunkCount = nat \<lceil>chunkCount\<rceil>"

definition deleteKeyChunks :: "database \<Rightarrow> substrate \<Rightarrow> jstr \<Rightarrow> substrate" where
  "deleteKeyChunks db s key =
     (let s1 = fold (\<lambda>t. setDynamicProperty (buildKey db key t None) Undefined)
                 [KEY_TYPE_NATIVE, KEY_TYPE_STRING, KEY_TYPE_META_CHUNK] s;
          chunkCount = getDynamicProperty s1 (buildKey db key KEY_TYPE_META_CHUNK None)
      in case chunkCount of
           Num n \<Rightarrow>
             fold (\<lambda>i. setDynamicProperty (buildKey db key KEY_TYPE_DATA_CHUNK (Some i)) Undefined)
               [0..<loop_rounds n] s1
         | _ \<Rightarrow> s1)"

definition write_chunks :: "database \<Rightarrow> jstr \<Rightarrow> jstr list \<Rightarrow> substrate \<Rightarrow> substrate" where
  "write_chunks db key chunks s =
     fold (\<lambda>(i, chunk). setDynamicProperty (buildKey db key KEY_TYPE_DATA_CHUNK (Some i)) (Str chunk))
       (enumerate 0 chunks) s"

definition set_value :: "builtins \<Rightarrow> database \<Rightarrow> substrate \<Rightarrow> jstr \<Rightarrow> jsval \<Rightarrow>
    error + (database \<times> substrate)" where
  "set_value B db s key v =
     (if trim key = [] then Inl InvalidKey
      else
        let s1 = deleteKeyChunks db s key;
            db1 = db\<lparr>dataCache := (dataCache db)(key := None)\<rparr>
        in if v = Undefined
           then Inr (db1\<lparr>knownKeys := set_delete key (knownKeys db1)\<rparr>, s1)
           else
             let processed = (if typeof_object v \<and> \<not> isVector v
                              then Str (JSON_stringify B v) else v);
                 single =
                   (if isVector v
                    then setDynamicProperty (buildKey db key KEY_TYPE_NATIVE None) v s1
                    else setDynamicProperty
                           (buildKey db key
                              (if typeof_string processed then KEY_TYPE_STRING
                               else KEY_TYPE_NATIVE) None)
                           processed s1);
                 s2 = (case processed of
                         Str p \<Rightarrow>
                           if MAX_CHUNK_SIZE < length p
                           then
                             let chunks = splitIntoChunks p
                             in write_chunks db key chunks
                                  (setDynamicProperty (buildKey db key KEY_TYPE_META_CHUNK None)
                                     (Num (real (length chunks))) s1)
                           else single
                       | _ \<Rightarrow> single);
                 db2 = db1\<lparr>knownKeys := set_add key (knownKeys db1)\<rparr>
             in Inr (if autoCache db2 then db2\<lparr>dataCache := (dataCache db2)(key \<mapsto> v)\<rparr>
                     else db2, s2))"

text \<open>
  The string the read path rebuilds from the chunks: every property read is appended
  with \<open>+=\<close>, whatever it is.
\<close>

definition read_chunks :: "builtins \<Rightarrow> database \<Rightarrow> substrate \<Rightarrow> jstr \<Rightarrow> real \<Rightarrow> jstr" where
  "read_chunks B db s key chunkCount =
     concat (map (\<lambda>i. to_string B
                   (getDynamicProperty s (buildKey db key KEY_TYPE_DATA_CHUNK (Some i))))
               [0..<loop_rounds chunkCount])"

definition get_value :: "builtins \<Rightarrow> database \<Rightarrow> substrate \<Rightarrow> jstr \<Rightarrow>
    error + (jsval \<times> database)" where
  "get_value B db s key =
     (if trim key = [] then Inl InvalidKey
      else case dataCache db key of
        Some cached \<Rightarrow> Inr (cached, db)
      | None \<Rightarrow>
        if key \<notin> set (knownKeys db) \<and> \<not> checkKeyExists db s key then Inr (Undefined, db)
        else
          let nativeVal = getDynamicProperty s (buildKey db key KEY_TYPE_NATIVE None)
          in if nativeVal \<noteq> Undefined then Inr (cacheValue db key nativeVal)
             else
               let stringVal0 = getDynamicProperty s (buildKey db key KEY_TYPE_STRING None);
                   stringVal =
                     (if stringVal0 = Undefined
                      then (case getDynamicProperty s (buildKey db key KEY_TYPE_META_CHUNK None) of
                              Num chunkCount \<Rightarrow> Str (read_chunks B db s key chunkCount)
                            | _ \<Rightarrow> stringVal0)
                      else stringVal0)
               in if truthy stringVal
                  then (case JSON_parse B (to_string B stringVal) of
                          Some parsed \<Rightarrow> Inr (cacheValue db key parsed)
                        | None \<Rightarrow> Inr (cacheValue db key stringVal))
                  else Inr (cacheValue db key Undefined))"

definition has :: "database \<Rightarrow> substrate \<Rightarrow> jstr \<Rightarrow> bool" where
  "has db s key =
     (dataCache db key \<noteq> None \<or> key \<in> set (knownKeys db) \<or> checkKeyExists db s key)"

definition delete :: "database \<Rightarrow> substrate \<Rightarrow> jstr \<Rightarrow> error + (bool \<times> database \<times> substrate)" where
  "delete db s key =
     (if trim key = [] then Inl InvalidKey
      else
        let exists = has db s key;
            s1 = deleteKeyChunks db s key
        in Inr (exists,
                db\<lparr>dataCache := (dataCache db)(key := None),
                   knownKeys := set_delete key (knownKeys db)\<rparr>,
                s1))"

definition clear :: "database \<Rightarrow> substrate \<Rightarrow> database \<times> substrate" where
  "clear db s =
     (db\<lparr>dataCache := Map.empty, knownKeys := []\<rparr>,
      fold (\<lambda>ident. setDynamicProperty ident Undefined)
        (filter (\<lambda>ident. startsWith ident (fullPrefixBase db)) (getDynamicPropertyIds s)) s)"

definition unload :: "database \<Rightarrow> jstr \<Rightarrow> database" where
  "unload db key = db\<lparr>dataCache := (dataCache db)(key := None)\<rparr>"

definition enableCache :: "database \<Rightarrow> database" where
  "enableCache db = db\<lparr>autoCache := True\<rparr>"

definition disableCache :: "database \<Rightarrow> database" where
  "disableCache db = db\<lparr>autoCache := False\<rparr>"


text \<open>
  The part of the constructor that fills the fields of a new instance, before the
  index is rebuilt from the property store.
\<close>

definition new_database :: "jstr \<Rightarrow> nat \<Rightarrow> database" where
  "new_database ident source =
     \<lparr>storageSource = source, databaseId = ident,
      fullPrefixBase = INTERNAL_DB_PREFIX @ ident @ ascii ''_'',
      dataCache = Map.empty, knownKeys = [], autoCache = True\<rparr>"

subsection \<open>The scan of the property ids at construction\<close>

text \<open>
  \<open>_initializeFromProperties\<close> matches every id against the pattern
  \<open>P(?:N_|S_|M_)(.+)|PD_(.+?)_\d+$\<close>, where \<open>P\<close> is the prefix of the store, put into
  the pattern unescaped. A prefix without the pattern metacharacters (backslash, caret,
  dollar, dot, bar, question mark, star, plus, parentheses, brackets and braces) stands
  for itself: for such a prefix (\<open>literal_pattern\<close>) the match is worked out below.
  For any other prefix the pattern is left to the built-in \<open>RegExp_match\<close>, which may
  reject it.
\<close>

definition literal_pattern :: "jstr \<Rightarrow> bool" where
  "literal_pattern ident =
     list_all (\<lambda>c. c \<notin> set [0x5C, 0x5E, 0x24, 0x2E, 0x7C, 0x3F, 0x2A, 0x2B,
                              0x28, 0x29, 0x5B, 0x5D, 0x7B, 0x7D]) ident"

text \<open>The text of the pattern, as the template literal builds it.\<close>

definition keyRegex_source :: "jstr \<Rightarrow> jstr" where
  "keyRegex_source pre =
     pre @ ascii ''(?:'' @ KEY_TYPE_NATIVE @ ascii ''|'' @ KEY_TYPE_STRING @ ascii ''|'' @
     KEY_TYPE_META_CHUNK @ ascii '')(.+)|'' @ pre @ KEY_TYPE_DATA_CHUNK @ ascii ''(.+?)_'' @
     [0x5C] @ ascii ''d+$''"

definition line_terminator :: "16 word \<Rightarrow> bool" where
  "line_terminator c = (c \<in> {0x0A, 0x0D, 0x2028, 0x2029})"

definition is_digit :: "16 word \<Rightarrow> bool" where
  "is_digit c = (0x30 \<le> c \<and> c \<le> 0x39)"

fun strip_literal :: "jstr \<Rightarrow> jstr \<Rightarrow> jstr option" where
  "strip_literal [] s = Some s"
| "strip_literal (p # ps) [] = None"
| "strip_literal (p # ps) (c # cs) = (if p = c then strip_literal ps cs else None)"

text \<open>The first alternative after the prefix: a tag, then the greedy group \<open>(.+)\<close>.\<close>

definition match_single :: "jstr \<Rightarrow> jstr option" where
  "match_single r =
     (case (case strip_literal KEY_TYPE_NATIVE r of Some t \<Rightarrow> Some t
            | None \<Rightarrow> (case strip_literal KEY_TYPE_STRING r of Some t \<Rightarrow> Some t
                       | None \<Rightarrow> strip_literal KEY_TYPE_META_CHUNK r)) of
        None \<Rightarrow> None
      | Some t \<Rightarrow>
          let captured = takeWhile (\<lambda>c. \<not> line_terminator c) t
          in if captured = [] then None else Some captured)"

text \<open>What must follow the lazy group of the second alternative: \<open>_\d+$\<close>.\<close>

definition chunk_tail :: "jstr \<Rightarrow> bool" where
  "chunk_tail cs =
     (case cs of [] \<Rightarrow> False
      | u # ds \<Rightarrow> u = 0x5F \<and> ds \<noteq> [] \<and> list_all is_digit ds)"

text \<open>The lazy group \<open>(.+?)\<close>: one more character at a time until the tail matches.\<close>

fun match_chunk :: "jstr \<Rightarrow> jstr \<Rightarrow> jstr option" where
  "match_chunk captured [] = None"
| "match_chunk captured (c # cs) =
     (if line_terminator c then None
      else if chunk_tail cs then Some (captured @ [c])
      else match_chunk (captured @ [c]) cs)"

definition match_here :: "jstr \<Rightarrow> jstr \<Rightarrow> jstr option" where
  "match_here pre s =
     (case strip_literal pre s of
        None \<Rightarrow> None
      | Some r \<Rightarrow>
          (case match_single r of
             Some k \<Rightarrow> Some k
           | None \<Rightarrow>
               (case strip_literal KEY_TYPE_DATA_CHUNK r of
                  None \<Rightarrow> None
                | Some t \<Rightarrow> match_chunk [] t)))"

text \<open>\<open>String.prototype.match\<close>: the leftmost position at which the pattern matches.\<close>

fun match_key :: "jstr \<Rightarrow> jstr \<Rightarrow> jstr option" where
  "match_key pre [] = match_here pre []"
| "match_key pre (c # cs) =
     (case match_here pre (c # cs) of Some k \<Rightarrow> Some k | None \<Rightarrow> match_key pre cs)"

text \<open>
  \<open>new RegExp(...)\<close> and what \<open>prop.match(keyRegex)\<close> then yields as
  \<open>match[1] || match[2]\<close>: worked out for a literal prefix (a captured group is never
  empty there), the built-in otherwise.
\<close>

definition keyRegex :: "builtins \<Rightarrow> jstr \<Rightarrow> (jstr \<Rightarrow> jsval option) option" where
  "keyRegex B pre =
     (if literal_pattern pre then Some (\<lambda>prop. map_option Str (match_key pre prop))
      else RegExp_match B (keyRegex_source pre))"

text \<open>
  The scan. A pattern that is rejected makes the constructor throw. With a prefix that
  brings groups of its own, \<open>match[1] || match[2]\<close> can be \<open>undefined\<close>, which the
  source adds to the index; the index of the model holds strings only and leaves that
  entry out.
\<close>

definition initializeFromProperties :: "builtins \<Rightarrow> database \<Rightarrow> substrate \<Rightarrow> error + database" where
  "initializeFromProperties B db s =
     (let props = filter (\<lambda>ident. startsWith ident (fullPrefixBase db)) (getDynamicPropertyIds s)
      in case keyRegex B (fullPrefixBase db) of
           None \<Rightarrow> Inl PatternSyntaxError
         | Some matcher \<Rightarrow>
             Inr (fold (\<lambda>prop d. case matcher prop of
                                   Some (Str k) \<Rightarrow> d\<lparr>knownKeys := set_add k (knownKeys d)\<rparr>
                                 | _ \<Rightarrow> d)
                    props db))"

subsection \<open>Iteration\<close>

definition keys :: "database \<Rightarrow> jstr list" where
  "keys db = knownKeys db"

definition size_db :: "database \<Rightarrow> nat" where
  "size_db db = length (knownKeys db)"

text \<open>
  \<open>entries\<close> read to its end: every key of the index with the value \<open>get\<close> returns for
  it; an exception of \<open>get\<close> ends the iteration.
\<close>

fun entries_loop :: "builtins \<Rightarrow> substrate \<Rightarrow> jstr list \<Rightarrow> database \<Rightarrow>
    error + ((jstr \<times> jsval) list \<times> database)" where
  "entries_loop B s [] db = Inr ([], db)"
| "entries_loop B s (k # ks) db =
     (case get_value B db s k of
        Inl e \<Rightarrow> Inl e
      | Inr (v, db1) \<Rightarrow>
          (case entries_loop B s ks db1 of
             Inl e \<Rightarrow> Inl e
           | Inr (kvs, db2) \<Rightarrow> Inr ((k, v) # kvs, db2)))"

definition entries :: "builtins \<Rightarrow> database \<Rightarrow> substrate \<Rightarrow>
    error + ((jstr \<times> jsval) list \<times> database)" where
  "entries B db s = entries_loop B s (keys db) db"

definition load :: "builtins \<Rightarrow> database \<Rightarrow> substrate \<Rightarrow> jstr \<Rightarrow> error + database" where
  "load B db s key =
     (if dataCache db key = None
      then (case get_value B db s key of Inl e \<Rightarrow> Inl e | Inr (v, db1) \<Rightarrow> Inr db1)
      else Inr db)"

section \<open>The registry of instances\<close>

text \<open>
  The process: the property store of every source, the instances created so far (a
  handle is the position of its instance) and the registry \<open>DB_INSTANCES\<close>, from a
  source to the handles of its databases by id.
\<close>

record world =
  sources :: "nat \<Rightarrow> substrate"
  instances :: "database list"
  DB_INSTANCES :: "nat \<rightharpoonup> (jstr \<rightharpoonup> nat)"

definition registered :: "world \<Rightarrow> nat \<Rightarrow> jstr \<Rightarrow> nat option" where
  "registered w source ident =
     (case DB_INSTANCES w source of None \<Rightarrow> None | Some m \<Rightarrow> m ident)"

text \<open>
  The constructor: it rejects a blank id, returns the registered instance of the pair if
  there is one, and otherwise builds the index of a new instance (which may throw) and
  registers it.
\<close>

definition construct :: "builtins \<Rightarrow> jstr \<Rightarrow> nat \<Rightarrow> world \<Rightarrow> error + (nat \<times> world)" where
  "construct B ident source w =
     (if trim ident = [] then Inl InvalidDatabaseId
      else case registered w source ident of
        Some h \<Rightarrow> Inr (h, w)
      | None \<Rightarrow>
          (case initializeFromProperties B (new_database ident source) (sources w source) of
             Inl e \<Rightarrow> Inl e
           | Inr db \<Rightarrow>
               let h = length (instances w);
                   m = (case DB_INSTANCES w source of None \<Rightarrow> Map.empty | Some m \<Rightarrow> m)
               in Inr (h, w\<lparr>instances := instances w @ [db],
                            DB_INSTANCES := (DB_INSTANCES w)(source \<mapsto> m(ident \<mapsto> h))\<rparr>)))"

text \<open>The static method \<open>Database.get\<close> calls the constructor.\<close>

definition Database_get :: "builtins \<Rightarrow> jstr \<Rightarrow> nat \<Rightarrow> world \<Rightarrow> error + (nat \<times> world)" where
  "Database_get B ident source w = construct B ident source w"

text \<open>
  A method call on a handle: it runs on the instance and on the property store of the
  source of that instance.
\<close>

definition on_instance :: "nat \<Rightarrow> (database \<Rightarrow> substrate \<Rightarrow> database \<times> substrate) \<Rightarrow> world \<Rightarrow> world" where
  "on_instance h f w =
     (if h < length (instances w)
      then
        let db = instances w ! h;
            src = storageSource db;
            (db1, s1) = f db (sources w src)
        in w\<lparr>instances := (instances w)[h := db1], sources := (sources w)(src := s1)\<rparr>
      else w)"

datatype command =
    New jstr nat
  | Set nat jstr jsval
  | Get nat jstr
  | Delete nat jstr
  | DeleteValue nat jstr
  | Clear nat
  | Load nat jstr
  | Unload nat jstr
  | EnableCache nat
  | DisableCache nat

text \<open>
  The state after a call. A call that throws does so before it changes anything, and
  leaves the state as it was.
\<close>

fun exec :: "builtins \<Rightarrow> command \<Rightarrow> world \<Rightarrow> world" where
  "exec B (New ident source) w =
     (case construct B ident source w of Inl e \<Rightarrow> w | Inr (h, w1) \<Rightarrow> w1)"
| "exec B (Set h key v) w =
     on_instance h (\<lambda>db s. case set_value B db s key v of Inl e \<Rightarrow> (db, s) | Inr r \<Rightarrow> r) w"
| "exec B (Get h key) w =
     on_instance h (\<lambda>db s. case get_value B db s key of Inl e \<Rightarrow> (db, s)
                            | Inr (v, db1) \<Rightarrow> (db1, s)) w"
| "exec B (Delete h key) w =
     on_instance h (\<lambda>db s. case delete db s key of Inl e \<Rightarrow> (db, s)
                            | Inr (existed, db1, s1) \<Rightarrow> (db1, s1)) w"
| "exec B (DeleteValue h key) w =
     on_instance h (\<lambda>db s. case set_value B db s key Undefined of Inl e \<Rightarrow> (db, s)
                            | Inr r \<Rightarrow> r) w"
| "exec B (Clear h) w = on_instance h clear w"
| "exec B (Load h key) w =
     on_instance h (\<lambda>db s. case load B db s key of Inl e \<Rightarrow> (db, s) | Inr db1 \<Rightarrow> (db1, s)) w"
| "exec B (Unload h key) w = on_instance h (\<lambda>db s. (unload db key, s)) w"
| "exec B (EnableCache h) w = on_instance h (\<lambda>db s. (enableCache db, s)) w"
| "exec B (DisableCache h) w = on_instance h (\<lambda>db s. (disableCache db, s)) w"

definition run :: "builtins \<Rightarrow> command list \<Rightarrow> world \<Rightarrow> world" where
  "run B cmds w = fold (exec B) cmds w"

section \<open>The first copy of the class in the second file\<close>

text \<open>
  The copy checks neither the database id nor the key (a key is a string here, so its
  \<open>typeof\<close> test never fires), and it cuts the chunks in \<open>set\<close> itself. It has no
  \<open>deleteValue\<close>, no static \<open>get\<close> and no \<open>_splitIntoChunks\<close>; its other methods
  have the text of the class above.
\<close>

definition construct1 :: "builtins \<Rightarrow> jstr \<Rightarrow> nat \<Rightarrow> world \<Rightarrow> error + (nat \<times> world)" where
  "construct1 B ident source w =
     (case registered w source ident of
        Some h \<Rightarrow> Inr (h, w)
      | None \<Rightarrow>
          (case initializeFromProperties B (new_database ident source) (sources w source) of
             Inl e \<Rightarrow> Inl e
           | Inr db \<Rightarrow>
               let h = length (instances w);
                   m = (case DB_INSTANCES w source of None \<Rightarrow> Map.empty | Some m \<Rightarrow> m)
               in Inr (h, w\<lparr>instances := instances w @ [db],
                            DB_INSTANCES := (DB_INSTANCES w)(source \<mapsto> m(ident \<mapsto> h))\<rparr>)))"

definition set_value1 :: "builtins \<Rightarrow> database \<Rightarrow> substrate \<Rightarrow> jstr \<Rightarrow> jsval \<Rightarrow>
    error + (database \<times> substrate)" where
  "set_value1 B db s key v =
     (let s1 = deleteKeyChunks db s key;
          db1 = db\<lparr>dataCache := (dataCache db)(key := None)\<rparr>
      in if v = Undefined
         then Inr (db1\<lparr>knownKeys := set_delete key (knownKeys db1)\<rparr>, s1)
         else
           let processed = (if typeof_object v \<and> \<not> isVector v
                            then Str (JSON_stringify B v) else v);
               single =
                 (if isVector v
                  then setDynamicProperty (buildKey db key KEY_TYPE_NATIVE None) v s1
                  else setDynamicProperty
                         (buildKey db key
                            (if typeof_string processed then KEY_TYPE_STRING
                             else KEY_TYPE_NATIVE) None)
                         processed s1);
               s2 = (case processed of
                       Str p \<Rightarrow>
                         if MAX_CHUNK_SIZE < length p
                         then
                           let chunkCount = nat \<lceil>real (length p) / real MAX_CHUNK_SIZE\<rceil>
                           in fold (\<lambda>i. setDynamicProperty
                                          (buildKey db key KEY_TYPE_DATA_CHUNK (Some i))
                                          (Str (substr p (i * MAX_CHUNK_SIZE) MAX_CHUNK_SIZE)))
                                [0..<chunkCount]
                                (setDynamicProperty (buildKey db key KEY_TYPE_META_CHUNK None)
                                   (Num (real chunkCount)) s1)
                         else single
                     | _ \<Rightarrow> single);
               db2 = db1\<lparr>knownKeys := set_add key (knownKeys db1)\<rparr>
           in Inr (if autoCache db2 then db2\<lparr>dataCache := (dataCache db2)(key \<mapsto> v)\<rparr>
                   else db2, s2))"

definition get_value1 :: "builtins \<Rightarrow> database \<Rightarrow> substrate \<Rightarrow> jstr \<Rightarrow>
    error + (jsval \<times> database)" where
  "get_value1 B db s key =
     (case dataCache db key of
        Some cached \<Rightarrow> Inr (cached, db)
      | None \<Rightarrow>
        if key \<notin> set (knownKeys db) \<and> \<not> checkKeyExists db s key then Inr (Undefined, db)
        else
          let nativeVal = getDynamicProperty s (buildKey db key KEY_TYPE_NATIVE None)
          in if nativeVal \<noteq> Undefined then Inr (cacheValue db key nativeVal)
             else
               let stringVal0 = getDynamicProperty s (buildKey db key KEY_TYPE_STRING None);
                   stringVal =
                     (if stringVal0 = Undefined
                      then (case getDynamicProperty s (buildKey db key KEY_TYPE_META_CHUNK None) of
                              Num chunkCount \<Rightarrow> Str (read_chunks B db s key chunkCount)
                            | _ \<Rightarrow> stringVal0)
                      else stringVal0)
               in if truthy stringVal
                  then (case JSON_parse B (to_string B stringVal) of
                          Some parsed \<Rightarrow> Inr (cacheValue db key parsed)
                        | None \<Rightarrow> Inr (cacheValue db key stringVal))
                  else Inr (cacheValue db key Undefined))"

definition has1 :: "database \<Rightarrow> substrate \<Rightarrow> jstr \<Rightarrow> bool" where
  "has1 db s key =
     (dataCache db key \<noteq> None \<or> key \<in> set (knownKeys db) \<or> checkKeyExists db s key)"

definition delete1 :: "database \<Rightarrow> substrate \<Rightarrow> jstr \<Rightarrow> error + (bool \<times> database \<times> substrate)" where
  "delete1 db s key =
     (let exists = has1 db s key;
          s1 = deleteKeyChunks db s key
      in Inr (exists,
              db\<lparr>dataCache := (dataCache db)(key := None),
                 knownKeys := set_delete key (knownKeys db)\<rparr>,
              s1))"

definition clear1 :: "database \<Rightarrow> substrate \<Rightarrow> database \<times> substrate" where
  "clear1 db s =
     (db\<lparr>dataCache := Map.empty, knownKeys := []\<rparr>,
      fold (\<lambda>ident. setDynamicProperty ident Undefined)
        (filter (\<lambda>ident. startsWith ident (fullPrefixBase db)) (getDynamicPropertyIds s)) s)"

fun entries_loop1 :: "builtins \<Rightarrow> substrate \<Rightarrow> jstr list \<Rightarrow> database \<Rightarrow>
    error + ((jstr \<times> jsval) list \<times> database)" where
  "entries_loop1 B s [] db = Inr ([], db)"
| "entries_loop1 B s (k # ks) db =
     (case get_value1 B db s k of
        Inl e \<Rightarrow> Inl e
      | Inr (v, db1) \<Rightarrow>
          (case entries_loop1 B s ks db1 of
             Inl e \<Rightarrow> Inl e
           | Inr (kvs, db2) \<Rightarrow> Inr ((k, v) # kvs, db2)))"

definition entries1 :: "builtins \<Rightarrow> database \<Rightarrow> substrate \<Rightarrow>
    error + ((jstr \<times> jsval) list \<times> database)" where
  "entries1 B db s = entries_loop1 B s (knownKeys db) db"

section \<open>The JSONStorage class\<close>

text \<open>
  \<open>#splitIntoChunks\<close> with a chunk size that is a natural number. With the size 0
  and a non-empty string the number of chunks is infinite and the loop never ends:
  \<open>None\<close>.
\<close>

definition JSONStorage_splitIntoChunks :: "nat \<Rightarrow> jstr \<Rightarrow> jstr list option" where
  "JSONStorage_splitIntoChunks chunkSize str =
     (if chunkSize = 0 \<and> str \<noteq> [] then None
      else
        let numChunks = nat \<lceil>real (length str) / real chunkSize\<rceil>
        in Some (map (\<lambda>i. slice str (i * chunkSize) ((i + 1) * chunkSize)) [0..<numChunks]))"

section \<open>Notions used in the statements\<close>

subsection \<open>What a successful set leaves behind\<close>

text \<open>
  The instance after \<open>set\<close> has stored a value other than \<open>undefined\<close>: the key is
  indexed, and cached when caching is on.
\<close>

definition after_set :: "database \<Rightarrow> jstr \<Rightarrow> jsval \<Rightarrow> database" where
  "after_set db key v =
     (if autoCache db
      then db\<lparr>dataCache := (dataCache db)(key \<mapsto> v), knownKeys := set_add key (knownKeys db)\<rparr>
      else db\<lparr>dataCache := (dataCache db)(key := None), knownKeys := set_add key (knownKeys db)\<rparr>)"

text \<open>
  The text \<open>set\<close> stores for a value: a string itself, the JSON text of an object
  that is not a vector, and none for a number, a boolean or a vector.
\<close>

definition payload :: "builtins \<Rightarrow> jsval \<Rightarrow> jstr option" where
  "payload B v =
     (case v of
        Str p \<Rightarrow> Some p
      | _ \<Rightarrow> if typeof_object v \<and> \<not> isVector v then Some (JSON_stringify B v) else None)"

text \<open>The writes of \<open>set\<close> for a text: one STRING entry, or the count and the chunks.\<close>

definition store_text :: "database \<Rightarrow> jstr \<Rightarrow> jstr \<Rightarrow> substrate \<Rightarrow> substrate" where
  "store_text db key p s =
     (if MAX_CHUNK_SIZE < length p
      then write_chunks db key (splitIntoChunks p)
             (setDynamicProperty (buildKey db key KEY_TYPE_META_CHUNK None)
                (Num (real (length (splitIntoChunks p)))) s)
      else setDynamicProperty (buildKey db key KEY_TYPE_STRING None) (Str p) s)"

text \<open>
  What the last step of \<open>get\<close> makes of a text it has read: \<open>undefined\<close> for the
  empty text, the parsed value when \<open>JSON.parse\<close> accepts it, the text itself otherwise.
\<close>

definition decode :: "builtins \<Rightarrow> jstr \<Rightarrow> jsval" where
  "decode B p =
     (if p = [] then Undefined
      else case JSON_parse B p of Some parsed \<Rightarrow> parsed | None \<Rightarrow> Str p)"

text \<open>The value the read path returns for a value that \<open>set\<close> has stored.\<close>

definition read_back :: "builtins \<Rightarrow> jsval \<Rightarrow> jsval" where
  "read_back B v = (case payload B v of None \<Rightarrow> v | Some p \<Rightarrow> decode B p)"

text \<open>
  The values the read path returns unchanged: numbers, booleans and vectors; non-empty
  strings that \<open>JSON.parse\<close> rejects (or maps to themselves); objects whose JSON text
  is parsed back to them.
\<close>

definition reads_back_equal :: "builtins \<Rightarrow> jsval \<Rightarrow> bool" where
  "reads_back_equal B v =
     (case v of
        Undefined \<Rightarrow> True
      | Num r \<Rightarrow> True
      | Bool b \<Rightarrow> True
      | Str p \<Rightarrow> p \<noteq> [] \<and> JSON_parse B p \<in> {None, Some (Str p)}
      | _ \<Rightarrow> isVector v \<or>
             (JSON_stringify B v \<noteq> [] \<and> JSON_parse B (JSON_stringify B v) = Some v))"

text \<open>The tags of the encodings that take one entry.\<close>

definition single_types :: "jstr set" where
  "single_types = {KEY_TYPE_NATIVE, KEY_TYPE_STRING, KEY_TYPE_META_CHUNK}"

text \<open>The number a string of decimal digits denotes.\<close>

definition read_nat :: "jstr \<Rightarrow> nat" where
  "read_nat ds = foldl (\<lambda>a c. 10 * a + (unat c - 48)) 0 ds"

subsection \<open>The registry and its instances\<close>

text \<open>Two states of one instance: the database id, the source and the prefix agree.\<close>

definition same_store :: "database \<Rightarrow> database \<Rightarrow> bool" where
  "same_store db db1 =
     (databaseId db1 = databaseId db \<and> storageSource db1 = storageSource db \<and>
      fullPrefixBase db1 = fullPrefixBase db)"

text \<open>
  Every registered handle refers to an instance that exists, and that instance has the
  database id and the source it is registered under.
\<close>

definition consistent :: "world \<Rightarrow> bool" where
  "consistent w =
     (\<forall>source ident h. registered w source ident = Some h \<longrightarrow>
        h < length (instances w) \<and>
        databaseId (instances w ! h) = ident \<and>
        storageSource (instances w ! h) = source)"

subsection \<open>Sequences of calls\<close>

text \<open>\<open>set(key, v)\<close> then \<open>get(key)\<close> on the same instance: what \<open>get\<close> returns.\<close>

definition set_then_get :: "builtins \<Rightarrow> database \<Rightarrow> substrate \<Rightarrow> jstr \<Rightarrow> jsval \<Rightarrow> error + jsval" where
  "set_then_get B db s key v =
     (case set_value B db s key v of
        Inl e \<Rightarrow> Inl e
      | Inr (db1, s1) \<Rightarrow>
          (case get_value B db1 s1 key of Inl e \<Rightarrow> Inl e | Inr (r, db2) \<Rightarrow> Inr r))"

text \<open>\<open>set(key, v)\<close>, \<open>unload(key)\<close>, then \<open>get(key)\<close>: what \<open>get\<close> returns.\<close>

definition set_unload_get :: "builtins \<Rightarrow> database \<Rightarrow> substrate \<Rightarrow> jstr \<Rightarrow> jsval \<Rightarrow> error + jsval" where
  "set_unload_get B db s key v =
     (case set_value B db s key v of
        Inl e \<Rightarrow> Inl e
      | Inr (db1, s1) \<Rightarrow>
          (case get_value B (unload db1 key) s1 key of Inl e \<Rightarrow> Inl e | Inr (r, db2) \<Rightarrow> Inr r))"

text \<open>\<open>set(key, v1)\<close> then \<open>set(key, v2)\<close>.\<close>

definition set_set :: "builtins \<Rightarrow> database \<Rightarrow> substrate \<Rightarrow> jstr \<Rightarrow> jsval \<Rightarrow> jsval \<Rightarrow>
    error + (database \<times> substrate)" where
  "set_set B db s key v1 v2 =
     (case set_value B db s key v1 of Inl e \<Rightarrow> Inl e | Inr (db1, s1) \<Rightarrow> set_value B db1 s1 key v2)"

text \<open>
  \<open>set(key, v)\<close> then \<open>delete(key)\<close>: what \<open>delete\<close> returns, \<open>has(key)\<close> on the
  instance afterwards, the ids left in the property store, and \<open>has(key)\<close> on a new
  instance of the same database that the constructor builds from that property store.
\<close>

definition set_delete_restart :: "builtins \<Rightarrow> database \<Rightarrow> substrate \<Rightarrow> jstr \<Rightarrow> jsval \<Rightarrow>
    error + (bool \<times> bool \<times> jstr list \<times> bool)" where
  "set_delete_restart B db s key v =
     (case set_value B db s key v of
        Inl e \<Rightarrow> Inl e
      | Inr (db1, s1) \<Rightarrow>
          (case delete db1 s1 key of
             Inl e \<Rightarrow> Inl e
           | Inr (existed, db2, s2) \<Rightarrow>
               (case initializeFromProperties B
                       (new_database (databaseId db) (storageSource db)) s2 of
                  Inl e \<Rightarrow> Inl e
                | Inr fresh \<Rightarrow>
                    Inr (existed, has db2 s2 key, getDynamicPropertyIds s2,
                         has fresh s2 key))))"

subsection \<open>Examples\<close>

definition empty_substrate :: substrate where
  "empty_substrate = \<lparr>props = [], writes = []\<rparr>"

text \<open>
  A process that has just started on given property stores: no instance exists and
  nothing is registered.
\<close>

definition start_world :: "(nat \<Rightarrow> substrate) \<Rightarrow> world" where
  "start_world stores = \<lparr>sources = stores, instances = [], DB_INSTANCES = Map.empty\<rparr>"

text \<open>A process in which nothing has been constructed or stored yet.\<close>

definition initial_world :: world where
  "initial_world = start_world (\<lambda>_. empty_substrate)"

text \<open>
  Stand-ins for the built-ins in closed examples that never call \<open>JSON.stringify\<close> or
  print a number, that hand \<open>JSON.parse\<close> no JSON text, and whose database ids have
  no pattern metacharacter.
\<close>

definition silent_builtins :: builtins where
  "silent_builtins =
     \<lparr>JSON_stringify = (\<lambda>_. []), JSON_parse = (\<lambda>_. None), Number_toString = (\<lambda>_. []),
      RegExp_match = (\<lambda>_. None)\<rparr>"

text \<open>A string of 40000 letters \<open>a\<close>, longer than one entry may be.\<close>

definition big_text :: jstr where
  "big_text = replicate 40000 0x61"

section \<open>Properties of the property store and of the entry ids\<close>

lemma getDynamicProperty_set:
  "getDynamicProperty (setDynamicProperty i v s) j = (if j = i then v else getDynamicProperty s j)"
  by (auto simp: getDynamicProperty_def setDynamicProperty_def update_conv' delete_conv' split: option.splits)

lemma writes_set: "writes (setDynamicProperty i v s) = writes s @ [(i, v)]"
  by (simp add: setDynamicProperty_def)

lemma read_nat_snoc: "read_nat (ds @ [c]) = 10 * read_nat ds + (unat c - 48)"
  by (simp add: read_nat_def)

lemma unat_digit: "d < 10 \<Longrightarrow> unat (digit d) - 48 = d"
proof -
  assume "d < 10"
  then have "(48 + d) mod 2 ^ LENGTH(16) = 48 + d" by simp
  then have "unat (of_nat (48 + d) :: 16 word) = 48 + d"
    by (simp only: unat_of_nat)
  then show ?thesis by (simp only: digit_def diff_add_inverse)
qed

lemma read_show_nat: "read_nat (show_nat n) = n"
proof (induction n rule: show_nat.induct)
  case (1 n)
  show ?case
  proof (cases "n < 10")
    case True
    then show ?thesis
      by (subst show_nat.simps) (simp add: read_nat_def unat_digit)
  next
    case False
    with 1 show ?thesis
      by (subst show_nat.simps) (simp add: read_nat_snoc unat_digit)
  qed
qed

lemma show_nat_inj: "show_nat n = show_nat m \<Longrightarrow> n = m"
  by (metis read_show_nat)

lemma show_nat_eq_iff [simp]: "show_nat n = show_nat m \<longleftrightarrow> n = m"
  using show_nat_inj by blast

lemma key_types_distinct [simp]:
  "KEY_TYPE_NATIVE \<noteq> KEY_TYPE_STRING" "KEY_TYPE_NATIVE \<noteq> KEY_TYPE_META_CHUNK"
  "KEY_TYPE_NATIVE \<noteq> KEY_TYPE_DATA_CHUNK" "KEY_TYPE_STRING \<noteq> KEY_TYPE_META_CHUNK"
  "KEY_TYPE_STRING \<noteq> KEY_TYPE_DATA_CHUNK" "KEY_TYPE_META_CHUNK \<noteq> KEY_TYPE_DATA_CHUNK"
  "KEY_TYPE_STRING \<noteq> KEY_TYPE_NATIVE" "KEY_TYPE_META_CHUNK \<noteq> KEY_TYPE_NATIVE"
  "KEY_TYPE_DATA_CHUNK \<noteq> KEY_TYPE_NATIVE" "KEY_TYPE_META_CHUNK \<noteq> KEY_TYPE_STRING"
  "KEY_TYPE_DATA_CHUNK \<noteq> KEY_TYPE_STRING" "KEY_TYPE_DATA_CHUNK \<noteq> KEY_TYPE_META_CHUNK"
  by (simp_all add: KEY_TYPE_NATIVE_def KEY_TYPE_STRING_def KEY_TYPE_META_CHUNK_def
      KEY_TYPE_DATA_CHUNK_def ascii_def)

lemma buildKey_single:
  "t \<in> single_types \<Longrightarrow> buildKey db key t idx = fullPrefixBase db @ t @ key"
  by (auto simp: buildKey_def single_types_def)

lemma buildKey_data:
  "buildKey db key KEY_TYPE_DATA_CHUNK (Some i) =
     fullPrefixBase db @ KEY_TYPE_DATA_CHUNK @ key @ ascii ''_'' @ show_nat i"
  by (simp add: buildKey_def)

lemma buildKey_single_neq:
  "t \<in> single_types \<Longrightarrow> t' \<in> single_types \<Longrightarrow> t \<noteq> t' \<Longrightarrow>
   buildKey db key t idx \<noteq> buildKey db key t' idx'"
  by (auto simp: buildKey_def single_types_def KEY_TYPE_NATIVE_def KEY_TYPE_STRING_def
      KEY_TYPE_META_CHUNK_def KEY_TYPE_DATA_CHUNK_def ascii_def)

lemma buildKey_data_neq_single:
  "t \<in> single_types \<Longrightarrow>
   buildKey db key KEY_TYPE_DATA_CHUNK (Some i) \<noteq> buildKey db key' t idx"
  by (auto simp: buildKey_def single_types_def KEY_TYPE_NATIVE_def KEY_TYPE_STRING_def
      KEY_TYPE_META_CHUNK_def KEY_TYPE_DATA_CHUNK_def ascii_def)

lemma buildKey_data_inj:
  "buildKey db key KEY_TYPE_DATA_CHUNK (Some i) = buildKey db key KEY_TYPE_DATA_CHUNK (Some j)
     \<longleftrightarrow> i = j"
  by (simp add: buildKey_data)

lemma single_types_mem [simp]:
  "KEY_TYPE_NATIVE \<in> single_types" "KEY_TYPE_STRING \<in> single_types"
  "KEY_TYPE_META_CHUNK \<in> single_types"
  by (simp_all add: single_types_def)

lemma deleteKeyChunks_eq:
  "deleteKeyChunks db s key =
     setDynamicProperty (buildKey db key KEY_TYPE_META_CHUNK None) Undefined
       (setDynamicProperty (buildKey db key KEY_TYPE_STRING None) Undefined
          (setDynamicProperty (buildKey db key KEY_TYPE_NATIVE None) Undefined s))"
  by (simp add: deleteKeyChunks_def getDynamicProperty_set)

lemma getDynamicProperty_deleteKeyChunks:
  "getDynamicProperty (deleteKeyChunks db s key) j =
     (if j \<in> (\<lambda>t. buildKey db key t None) ` single_types then Undefined
      else getDynamicProperty s j)"
  by (auto simp: deleteKeyChunks_eq getDynamicProperty_set single_types_def)

lemma deleteKeyChunks_keeps_data:
  "getDynamicProperty (deleteKeyChunks db s key) (buildKey db key' KEY_TYPE_DATA_CHUNK (Some i)) =
     getDynamicProperty s (buildKey db key' KEY_TYPE_DATA_CHUNK (Some i))"
  by (auto simp: getDynamicProperty_deleteKeyChunks buildKey_data_neq_single)

lemma writes_deleteKeyChunks:
  "writes (deleteKeyChunks db s key) = writes s @
     [(buildKey db key KEY_TYPE_NATIVE None, Undefined),
      (buildKey db key KEY_TYPE_STRING None, Undefined),
      (buildKey db key KEY_TYPE_META_CHUNK None, Undefined)]"
  by (simp add: deleteKeyChunks_eq writes_set)

lemma props_deleteKeyChunks:
  "props (deleteKeyChunks db s key) =
     filter (\<lambda>(j, v). j \<notin> (\<lambda>t. buildKey db key t None) ` single_types) (props s)"
  by (auto simp: deleteKeyChunks_eq setDynamicProperty_def AList.delete_eq single_types_def
      intro!: filter_cong)

lemma isVector_simps [simp]:
  "\<not> isVector Undefined" "\<not> isVector Null" "\<not> isVector (Num r)" "\<not> isVector (Bool b)"
  "\<not> isVector (Str p)" "\<not> isVector (Arr xs)"
  by (simp_all add: isVector_def)

lemma set_value_empty_string:
  assumes "trim key \<noteq> []"
  shows "set_value B db s key (Str []) =
     Inr ((if autoCache db then db\<lparr>dataCache := (dataCache db)(key \<mapsto> Str []),
                                   knownKeys := set_add key (knownKeys db)\<rparr>
           else db\<lparr>dataCache := (dataCache db)(key := None),
                   knownKeys := set_add key (knownKeys db)\<rparr>),
          setDynamicProperty (buildKey db key KEY_TYPE_STRING None) (Str [])
            (deleteKeyChunks db s key))"
  using assms by (simp add: set_value_def typeof_object_def typeof_string_def Let_def)

lemma set_add_mem [simp]: "k \<in> set (set_add k ks)"
  by (simp add: set_add_def)

lemma buildKey_update [simp]:
  "buildKey (dataCache_update f db) = buildKey db"
  "buildKey (knownKeys_update g db) = buildKey db"
  "buildKey (autoCache_update h db) = buildKey db"
  by (simp_all add: buildKey_def fun_eq_iff)

lemma checkKeyExists_update [simp]:
  "checkKeyExists (dataCache_update f db) = checkKeyExists db"
  "checkKeyExists (knownKeys_update g db) = checkKeyExists db"
  "checkKeyExists (autoCache_update h db) = checkKeyExists db"
  by (simp_all add: checkKeyExists_def fun_eq_iff)

section \<open>Splitting a string into chunks\<close>

lemma MAX_CHUNK_SIZE_pos [simp]: "0 < MAX_CHUNK_SIZE"
  by (simp add: MAX_CHUNK_SIZE_def)

lemma substring_chunk: "substring str i (i + n) = take n (drop i str)"
  by (simp add: substring_def)

lemma split_from_step:
  "i < length str \<Longrightarrow>
   split_from str i = take MAX_CHUNK_SIZE (drop i str) # split_from str (i + MAX_CHUNK_SIZE)"
  by (subst split_from.simps) (simp add: substring_chunk)

lemma split_from_done: "length str \<le> i \<Longrightarrow> split_from str i = []"
  by (subst split_from.simps) simp

lemma concat_split_from: "concat (split_from str i) = drop i str"
proof (induction str i rule: split_from.induct)
  case (1 str i)
  show ?case
  proof (cases "i < length str")
    case True
    have "take MAX_CHUNK_SIZE (drop i str) @ drop (i + MAX_CHUNK_SIZE) str = drop i str"
      by (metis add.commute append_take_drop_id drop_drop)
    with 1 True show ?thesis
      by (simp only: split_from_step concat.simps)
  next
    case False
    then show ?thesis by (simp add: split_from_done)
  qed
qed

lemma ceil_div_step:
  fixes n m :: nat
  assumes "0 < m" "0 < n"
  shows "(n + m - 1) div m = Suc ((n - m + m - 1) div m)"
proof -
  define a where "a = n - 1"
  have n: "n = Suc a" using assms by (simp add: a_def)
  have "(a + m) div m = Suc (a div m)"
    using assms by simp
  moreover have "(Suc a - m + m - 1) div m = a div m"
  proof (cases "m \<le> Suc a")
    case True
    then show ?thesis by simp
  next
    case False
    then have "Suc a - m = 0" "a < m" by simp_all
    then show ?thesis using assms by simp
  qed
  ultimately show ?thesis by (simp add: n)
qed

lemma length_split_from:
  "length (split_from str i) = (length str - i + MAX_CHUNK_SIZE - 1) div MAX_CHUNK_SIZE"
proof (induction str i rule: split_from.induct)
  case (1 str i)
  show ?case
  proof (cases "i < length str")
    case True
    have "(length str - i + MAX_CHUNK_SIZE - 1) div MAX_CHUNK_SIZE =
          Suc ((length str - i - MAX_CHUNK_SIZE + MAX_CHUNK_SIZE - 1) div MAX_CHUNK_SIZE)"
      using True by (intro ceil_div_step) simp_all
    with 1 True show ?thesis
      by (simp add: split_from_step)
  next
    case False
    then show ?thesis by (simp add: split_from_done)
  qed
qed

lemma nth_split_from:
  "j < length (split_from str i) \<Longrightarrow>
   split_from str i ! j = take MAX_CHUNK_SIZE (drop (i + j * MAX_CHUNK_SIZE) str)"
proof (induction str i arbitrary: j rule: split_from.induct)
  case (1 str i)
  show ?case
  proof (cases "i < length str")
    case True
    show ?thesis
    proof (cases j)
      case 0
      with True show ?thesis by (simp add: split_from_step)
    next
      case (Suc j')
      with "1.prems" True have "j' < length (split_from str (i + MAX_CHUNK_SIZE))"
        by (simp add: split_from_step)
      with "1.IH" [OF True] have
        "split_from str (i + MAX_CHUNK_SIZE) ! j' =
           take MAX_CHUNK_SIZE (drop (i + MAX_CHUNK_SIZE + j' * MAX_CHUNK_SIZE) str)"
        by blast
      with True Suc show ?thesis
        by (simp add: split_from_step add.assoc)
    qed
  next
    case False
    with "1.prems" show ?thesis by (simp add: split_from_done)
  qed
qed

lemma split_from_chunk_bounds:
  "c \<in> set (split_from str i) \<Longrightarrow> c \<noteq> [] \<and> length c \<le> MAX_CHUNK_SIZE"
proof (induction str i rule: split_from.induct)
  case (1 str i)
  show ?case
  proof (cases "i < length str")
    case True
    from "1.prems" True consider
      "c = take MAX_CHUNK_SIZE (drop i str)" | "c \<in> set (split_from str (i + MAX_CHUNK_SIZE))"
      by (auto simp only: split_from_step set_simps)
    then show ?thesis
    proof cases
      case 1
      with True show ?thesis by simp
    next
      case 2
      with "1.IH" [OF True] show ?thesis by blast
    qed
  next
    case False
    with "1.prems" show ?thesis by (simp add: split_from_done)
  qed
qed

lemma split_from_full_chunks:
  "c \<in> set (butlast (split_from str i)) \<Longrightarrow> length c = MAX_CHUNK_SIZE"
proof (induction str i rule: split_from.induct)
  case (1 str i)
  show ?case
  proof (cases "i < length str")
    case True
    show ?thesis
    proof (cases "i + MAX_CHUNK_SIZE < length str")
      case more: True
      with 1 True show ?thesis
        by (auto simp: split_from_step split: if_splits)
    next
      case False
      then have "split_from str (i + MAX_CHUNK_SIZE) = []"
        by (simp add: split_from_done)
      with "1.prems" True show ?thesis
        by (simp add: split_from_step)
    qed
  next
    case False
    with "1.prems" show ?thesis by (simp add: split_from_done)
  qed
qed

section \<open>What set writes and what get reads back\<close>

lemma set_value_text:
  assumes "trim key \<noteq> []" "payload B v = Some p"
  shows "set_value B db s key v =
           Inr (after_set db key v, store_text db key p (deleteKeyChunks db s key))"
proof (cases v)
  case (Str q)
  with assms show ?thesis
    by (simp add: set_value_def payload_def store_text_def after_set_def typeof_object_def
        typeof_string_def Let_def)
next
  case Undefined
  with assms show ?thesis by (simp add: payload_def typeof_object_def)
next
  case Null
  with assms show ?thesis
    by (auto simp: set_value_def payload_def store_text_def after_set_def typeof_object_def
        typeof_string_def Let_def)
next
  case (Num r)
  with assms show ?thesis by (simp add: payload_def typeof_object_def)
next
  case (Bool b)
  with assms show ?thesis by (simp add: payload_def typeof_object_def)
next
  case (Arr xs)
  with assms show ?thesis
    by (auto simp: set_value_def payload_def store_text_def after_set_def typeof_object_def
        typeof_string_def Let_def)
next
  case (Obj kvs)
  with assms have "\<not> isVector v" "p = JSON_stringify B v"
    by (auto simp: payload_def typeof_object_def split: if_splits)
  with assms Obj show ?thesis
    by (auto simp: set_value_def store_text_def after_set_def typeof_object_def
        typeof_string_def Let_def)
qed

lemma set_value_native:
  assumes "trim key \<noteq> []" "payload B v = None" "v \<noteq> Undefined"
  shows "set_value B db s key v =
           Inr (after_set db key v,
                setDynamicProperty (buildKey db key KEY_TYPE_NATIVE None) v
                  (deleteKeyChunks db s key))"
proof (cases v)
  case (Obj kvs)
  with assms have "isVector v"
    by (auto simp: payload_def typeof_object_def split: if_splits)
  with assms Obj show ?thesis
    by (auto simp: set_value_def after_set_def typeof_object_def Let_def)
qed (use assms in \<open>auto simp: set_value_def payload_def after_set_def typeof_object_def
        typeof_string_def Let_def\<close>)

lemma getDynamicProperty_fold_other:
  "(\<And>i. i < length chunks \<Longrightarrow> j \<noteq> buildKey db key KEY_TYPE_DATA_CHUNK (Some (n + i))) \<Longrightarrow>
   getDynamicProperty
     (fold (\<lambda>(i, chunk). setDynamicProperty (buildKey db key KEY_TYPE_DATA_CHUNK (Some i)) (Str chunk))
        (enumerate n chunks) s) j = getDynamicProperty s j"
proof (induction chunks arbitrary: s rule: rev_induct)
  case Nil
  then show ?case by simp
next
  case (snoc c cs)
  have "j \<noteq> buildKey db key KEY_TYPE_DATA_CHUNK (Some (n + length cs))"
    using snoc.prems [of "length cs"] by simp
  moreover have "getDynamicProperty
     (fold (\<lambda>(i, chunk). setDynamicProperty (buildKey db key KEY_TYPE_DATA_CHUNK (Some i)) (Str chunk))
        (enumerate n cs) s) j = getDynamicProperty s j"
    using snoc.prems by (intro snoc.IH) (simp add: less_Suc_eq)
  ultimately show ?case
    by (simp add: enumerate_append_eq getDynamicProperty_set)
qed

lemma getDynamicProperty_fold_data:
  "i < length chunks \<Longrightarrow>
   getDynamicProperty
     (fold (\<lambda>(i, chunk). setDynamicProperty (buildKey db key KEY_TYPE_DATA_CHUNK (Some i)) (Str chunk))
        (enumerate n chunks) s) (buildKey db key KEY_TYPE_DATA_CHUNK (Some (n + i))) =
   Str (chunks ! i)"
proof (induction chunks arbitrary: s rule: rev_induct)
  case Nil
  then show ?case by simp
next
  case (snoc c cs)
  show ?case
  proof (cases "i = length cs")
    case True
    then show ?thesis
      by (simp add: enumerate_append_eq getDynamicProperty_set)
  next
    case False
    with snoc.prems have "i < length cs" by simp
    with snoc.IH False show ?thesis
      by (simp add: enumerate_append_eq getDynamicProperty_set buildKey_data_inj nth_append)
  qed
qed

lemma getDynamicProperty_write_chunks_data:
  "i < length chunks \<Longrightarrow>
   getDynamicProperty (write_chunks db key chunks s) (buildKey db key KEY_TYPE_DATA_CHUNK (Some i)) =
     Str (chunks ! i)"
  using getDynamicProperty_fold_data [of i chunks db key 0 s]
  by (simp add: write_chunks_def)

lemma getDynamicProperty_write_chunks_single:
  "t \<in> single_types \<Longrightarrow>
   getDynamicProperty (write_chunks db key chunks s) (buildKey db key' t idx) =
     getDynamicProperty s (buildKey db key' t idx)"
  unfolding write_chunks_def
  by (rule getDynamicProperty_fold_other) (metis buildKey_data_neq_single)

lemma writes_fold_data:
  "writes (fold (\<lambda>(i, chunk). setDynamicProperty (buildKey db key KEY_TYPE_DATA_CHUNK (Some i)) (Str chunk))
        (enumerate n chunks) s) =
     writes s @ map (\<lambda>(i, chunk). (buildKey db key KEY_TYPE_DATA_CHUNK (Some i), Str chunk))
                  (enumerate n chunks)"
  by (induction chunks arbitrary: s rule: rev_induct)
     (simp_all add: enumerate_append_eq writes_set)

lemma writes_write_chunks:
  "writes (write_chunks db key chunks s) =
     writes s @ map (\<lambda>(i, chunk). (buildKey db key KEY_TYPE_DATA_CHUNK (Some i), Str chunk))
                  (enumerate 0 chunks)"
  by (simp add: write_chunks_def writes_fold_data)

lemma loop_rounds_real [simp]: "loop_rounds (real n) = n"
  by (simp add: loop_rounds_def)

lemma concat_splitIntoChunks: "concat (splitIntoChunks p) = p"
  by (simp add: splitIntoChunks_def concat_split_from)

lemma read_chunks_write_chunks:
  "read_chunks B db (write_chunks db key chunks s) key (real (length chunks)) = concat chunks"
proof -
  have "map (\<lambda>i. to_string B (getDynamicProperty (write_chunks db key chunks s)
                 (buildKey db key KEY_TYPE_DATA_CHUNK (Some i)))) [0..<length chunks] =
        map (\<lambda>i. chunks ! i) [0..<length chunks]"
    by (rule map_cong) (simp_all add: getDynamicProperty_write_chunks_data)
  then show ?thesis
    by (simp add: read_chunks_def map_nth)
qed

lemma store_text_native:
  "getDynamicProperty (store_text db key p (deleteKeyChunks db s key))
     (buildKey db key KEY_TYPE_NATIVE None) = Undefined"
  by (simp add: store_text_def getDynamicProperty_write_chunks_single getDynamicProperty_set
      getDynamicProperty_deleteKeyChunks buildKey_single_neq)

lemma store_text_short:
  "length p \<le> MAX_CHUNK_SIZE \<Longrightarrow>
   getDynamicProperty (store_text db key p (deleteKeyChunks db s key))
     (buildKey db key KEY_TYPE_STRING None) = Str p"
  by (simp add: store_text_def getDynamicProperty_set)

lemma store_text_long:
  assumes "MAX_CHUNK_SIZE < length p"
  shows "getDynamicProperty (store_text db key p (deleteKeyChunks db s key))
           (buildKey db key KEY_TYPE_STRING None) = Undefined"
    and "getDynamicProperty (store_text db key p (deleteKeyChunks db s key))
           (buildKey db key KEY_TYPE_META_CHUNK None) =
           Num (real (length (splitIntoChunks p)))"
    and "read_chunks B db (store_text db key p (deleteKeyChunks db s key)) key
           (real (length (splitIntoChunks p))) = p"
  using assms
  by (simp_all add: store_text_def getDynamicProperty_write_chunks_single getDynamicProperty_set
      getDynamicProperty_deleteKeyChunks buildKey_single_neq read_chunks_write_chunks
      concat_splitIntoChunks)

lemma truthy_Str [simp]: "truthy (Str p) \<longleftrightarrow> p \<noteq> []"
  by (simp add: truthy_def)

lemma get_value_native:
  assumes "trim key \<noteq> []" "dataCache db key = None" "key \<in> set (knownKeys db)"
    and "getDynamicProperty s (buildKey db key KEY_TYPE_NATIVE None) = v" "v \<noteq> Undefined"
  shows "get_value B db s key = Inr (cacheValue db key v)"
  using assms by (simp add: get_value_def)

lemma get_value_string:
  assumes "trim key \<noteq> []" "dataCache db key = None" "key \<in> set (knownKeys db)"
    and "getDynamicProperty s (buildKey db key KEY_TYPE_NATIVE None) = Undefined"
    and "getDynamicProperty s (buildKey db key KEY_TYPE_STRING None) = Str p"
  shows "get_value B db s key = Inr (cacheValue db key (decode B p))"
  using assms by (simp add: get_value_def decode_def split: option.splits)

lemma get_value_chunked:
  assumes "trim key \<noteq> []" "dataCache db key = None" "key \<in> set (knownKeys db)"
    and "getDynamicProperty s (buildKey db key KEY_TYPE_NATIVE None) = Undefined"
    and "getDynamicProperty s (buildKey db key KEY_TYPE_STRING None) = Undefined"
    and "getDynamicProperty s (buildKey db key KEY_TYPE_META_CHUNK None) = Num n"
  shows "get_value B db s key = Inr (cacheValue db key (decode B (read_chunks B db s key n)))"
  using assms by (simp add: get_value_def decode_def split: option.splits)

lemma after_set_fields [simp]:
  "fullPrefixBase (after_set db key v) = fullPrefixBase db"
  "key \<in> set (knownKeys (after_set db key v))"
  "autoCache (after_set db key v) = autoCache db"
  "dataCache (after_set db key v) key = (if autoCache db then Some v else None)"
  by (simp_all add: after_set_def)

lemma buildKey_cong: "fullPrefixBase db' = fullPrefixBase db \<Longrightarrow> buildKey db' = buildKey db"
  by (simp add: buildKey_def fun_eq_iff)

lemma read_chunks_cong:
  "fullPrefixBase db' = fullPrefixBase db \<Longrightarrow> read_chunks B db' = read_chunks B db"
  using buildKey_cong [of db' db] by (simp add: read_chunks_def fun_eq_iff)

lemma unload_fields [simp]:
  "fullPrefixBase (unload db key) = fullPrefixBase db"
  "knownKeys (unload db key) = knownKeys db"
  "autoCache (unload db key) = autoCache db"
  "dataCache (unload db key) key = None"
  by (simp_all add: unload_def)

lemma get_after_set_text:
  assumes "trim key \<noteq> []" "payload B v = Some p"
  shows "get_value B (unload (after_set db key v) key)
           (store_text db key p (deleteKeyChunks db s key)) key =
         Inr (cacheValue (unload (after_set db key v) key) key (decode B p))"
proof -
  let ?d = "unload (after_set db key v) key"
  let ?s = "store_text db key p (deleteKeyChunks db s key)"
  have bk: "buildKey ?d = buildKey db"
    by (rule buildKey_cong) simp
  have rc: "read_chunks B ?d = read_chunks B db"
    by (rule read_chunks_cong) simp
  show ?thesis
  proof (cases "MAX_CHUNK_SIZE < length p")
    case True
    from store_text_long(1,2) [OF True, of db key s]
    have "get_value B ?d ?s key = Inr (cacheValue ?d key (decode B (read_chunks B ?d ?s key
            (real (length (splitIntoChunks p))))))"
      using assms(1) by (intro get_value_chunked) (simp_all add: bk store_text_native)
    with store_text_long(3) [OF True, of B db key s] show ?thesis
      by (simp add: rc)
  next
    case False
    then have "length p \<le> MAX_CHUNK_SIZE" by simp
    from store_text_short [OF this, of db key s] show ?thesis
      using assms(1) by (intro get_value_string) (simp_all add: bk store_text_native)
  qed
qed

lemma get_after_set_native:
  assumes "trim key \<noteq> []" "v \<noteq> Undefined"
  shows "get_value B (unload (after_set db key v) key)
           (setDynamicProperty (buildKey db key KEY_TYPE_NATIVE None) v (deleteKeyChunks db s key)) key =
         Inr (cacheValue (unload (after_set db key v) key) key v)"
proof -
  have bk: "buildKey (unload (after_set db key v) key) = buildKey db"
    by (rule buildKey_cong) simp
  show ?thesis
    using assms by (intro get_value_native) (simp_all add: bk getDynamicProperty_set)
qed

lemma set_value_total:
  assumes "trim key \<noteq> []" "v \<noteq> Undefined"
  shows "set_value B db s key v =
           Inr (after_set db key v,
                case payload B v of
                  None \<Rightarrow> setDynamicProperty (buildKey db key KEY_TYPE_NATIVE None) v
                            (deleteKeyChunks db s key)
                | Some p \<Rightarrow> store_text db key p (deleteKeyChunks db s key))"
  using assms by (cases "payload B v") (simp_all add: set_value_text set_value_native)

lemma set_unload_get_eq:
  assumes "trim key \<noteq> []" "v \<noteq> Undefined"
  shows "set_unload_get B db s key v = Inr (read_back B v)"
  using assms
  by (cases "payload B v")
     (simp_all add: set_unload_get_def set_value_total get_after_set_text get_after_set_native
       read_back_def cacheValue_def)

lemma set_then_get_cached:
  assumes "trim key \<noteq> []" "v \<noteq> Undefined" "autoCache db"
  shows "set_then_get B db s key v = Inr v"
  using assms by (simp add: set_then_get_def set_value_total get_value_def)

lemma unload_after_set_uncached:
  "\<not> autoCache db \<Longrightarrow> unload (after_set db key v) key = after_set db key v"
  by (simp add: unload_def after_set_def)

lemma set_then_get_uncached:
  assumes "trim key \<noteq> []" "v \<noteq> Undefined" "\<not> autoCache db"
  shows "set_then_get B db s key v = Inr (read_back B v)"
  using set_unload_get_eq [OF assms(1,2), of B db s] assms
  by (simp add: set_then_get_def set_unload_get_def set_value_total unload_after_set_uncached)

lemma read_back_equal_iff: "read_back B v = v \<longleftrightarrow> reads_back_equal B v"
proof (cases v)
  case (Obj kvs)
  then show ?thesis
    by (auto simp: read_back_def reads_back_equal_def payload_def decode_def typeof_object_def
        split: option.splits)
qed (auto simp: read_back_def reads_back_equal_def payload_def decode_def typeof_object_def
        split: option.splits)

section \<open>The round trip\<close>

text \<open>
  C3 (as amended). For a supported value \<open>v\<close> (a number, a boolean, a string, a
  vector, or an object that \<open>JSON.stringify\<close> serializes: the values of \<open>jsval\<close> other
  than \<open>undefined\<close>) and a key with a character that is not white space, \<open>set(k, v)\<close>
  followed by \<open>get(k)\<close> on the same instance returns \<open>v\<close> itself while the cache is
  enabled; with the cache disabled it returns what the read path decodes from the
  property store (\<open>read_back\<close>).
\<close>

theorem set_then_get_returns:
  assumes "trim key \<noteq> []" "v \<noteq> Undefined"
  shows "set_then_get B db s key v = Inr (if autoCache db then v else read_back B v)"
  using assms by (simp add: set_then_get_cached set_then_get_uncached)

lemma trim_k [simp]: "trim (ascii ''k'') \<noteq> []"
  by (simp add: trim_def ascii_def is_space_def)

theorem set_then_get_returns_witness:
  "trim (ascii ''k'') \<noteq> [] \<and> Num 42 \<noteq> Undefined \<and>
   set_then_get silent_builtins (new_database (ascii ''db'') 0) empty_substrate (ascii ''k'') (Num 42)
     = Inr (Num 42)"
  using set_then_get_returns
    [of "ascii ''k''" "Num 42" silent_builtins "new_database (ascii ''db'') 0" empty_substrate]
  by (simp add: new_database_def)

text \<open>
  The round trip as the claim states it fails: with the cache disabled the empty string
  is read back as \<open>undefined\<close>, and a key of white space only is rejected.
\<close>

theorem set_then_get_counterexample:
  "set_then_get silent_builtins (disableCache (new_database (ascii ''db'') 0)) empty_substrate
     (ascii ''k'') (Str []) = Inr Undefined \<and>
   set_then_get silent_builtins (new_database (ascii ''db'') 0) empty_substrate
     (ascii '' '') (Num 42) = Inl InvalidKey"
proof -
  have "set_then_get silent_builtins (disableCache (new_database (ascii ''db'') 0)) empty_substrate
     (ascii ''k'') (Str []) = Inr (read_back silent_builtins (Str []))"
    by (rule set_then_get_uncached) (simp_all add: disableCache_def new_database_def)
  moreover have "trim (ascii '' '') = []"
    by (simp add: trim_def ascii_def is_space_def)
  ultimately show ?thesis
    by (simp add: read_back_def payload_def decode_def set_then_get_def set_value_def)
qed

text \<open>
  C4 (as amended). For a supported value \<open>v\<close> (a number, a boolean, a string, a
  vector, or an object that \<open>JSON.stringify\<close> serializes: the values of \<open>jsval\<close> other
  than \<open>undefined\<close>) and a key with a character that is not white space, after
  \<open>set(k, v)\<close> and \<open>unload(k)\<close> the call \<open>get(k)\<close> returns \<open>read_back v\<close>: \<open>v\<close>
  itself for a number, a boolean or a vector; for a string or an object, \<open>undefined\<close>
  when the stored text is empty, the parsed text when \<open>JSON.parse\<close> accepts it, and the
  text itself otherwise. That is \<open>v\<close> exactly when \<open>reads_back_equal\<close> holds.
\<close>

theorem get_after_unload_returns:
  assumes "trim key \<noteq> []" "v \<noteq> Undefined"
  shows "set_unload_get B db s key v = Inr (read_back B v) \<and>
         (read_back B v = v \<longleftrightarrow> reads_back_equal B v)"
  using assms by (simp add: set_unload_get_eq read_back_equal_iff)

theorem get_after_unload_returns_witness:
  "trim (ascii ''k'') \<noteq> [] \<and> Str (ascii ''hello'') \<noteq> Undefined \<and>
   set_unload_get silent_builtins (new_database (ascii ''db'') 0) empty_substrate (ascii ''k'')
     (Str (ascii ''hello'')) = Inr (Str (ascii ''hello'')) \<and>
   reads_back_equal silent_builtins (Str (ascii ''hello''))"
  using get_after_unload_returns
    [of "ascii ''k''" "Str (ascii ''hello'')" silent_builtins "new_database (ascii ''db'') 0"
        empty_substrate]
  by (simp add: read_back_def payload_def decode_def silent_builtins_def ascii_def
      reads_back_equal_def trim_def is_space_def)

text \<open>
  After \<open>unload\<close> the empty string is read back as \<open>undefined\<close>, and a key of white
  space only is rejected.
\<close>

theorem get_after_unload_counterexample:
  "set_unload_get silent_builtins (new_database (ascii ''db'') 0) empty_substrate
     (ascii ''k'') (Str []) = Inr Undefined \<and>
   set_unload_get silent_builtins (new_database (ascii ''db'') 0) empty_substrate
     (ascii '' '') (Num 42) = Inl InvalidKey"
proof -
  have "set_unload_get silent_builtins (new_database (ascii ''db'') 0) empty_substrate
     (ascii ''k'') (Str []) = Inr (read_back silent_builtins (Str []))"
    by (rule set_unload_get_eq) simp_all
  moreover have "trim (ascii '' '') = []"
    by (simp add: trim_def ascii_def is_space_def)
  ultimately show ?thesis
    by (simp add: read_back_def payload_def decode_def set_unload_get_def set_value_def)
qed

section \<open>The empty string\<close>

text \<open>
  C10 (as amended). After \<open>set(k, "")\<close> on a key with a character that is not white space, the
  STRING entry holds the empty string; once the cache no longer holds \<open>k\<close> (after
  \<open>unload(k)\<close>, or with the cache disabled when the value was set), \<open>has(k)\<close> is true
  and \<open>get(k)\<close> returns \<open>undefined\<close>.
\<close>

theorem empty_string_present_but_read_absent:
  assumes "trim key \<noteq> []"
  shows "\<exists>db1 s1. set_value B db s key (Str []) = Inr (db1, s1) \<and>
           getDynamicProperty s1 (buildKey db1 key KEY_TYPE_STRING None) = Str [] \<and>
           has (unload db1 key) s1 key \<and>
           get_value B (unload db1 key) s1 key = Inr (cacheValue (unload db1 key) key Undefined) \<and>
           (\<not> autoCache db \<longrightarrow>
              dataCache db1 key = None \<and> has db1 s1 key \<and>
              get_value B db1 s1 key = Inr (Undefined, db1))"
proof -
  let ?s1 = "setDynamicProperty (buildKey db key KEY_TYPE_STRING None) (Str [])
               (deleteKeyChunks db s key)"
  have nat: "getDynamicProperty ?s1 (buildKey db key KEY_TYPE_NATIVE None) = Undefined"
    by (simp add: getDynamicProperty_set getDynamicProperty_deleteKeyChunks buildKey_single_neq)
  have str: "getDynamicProperty ?s1 (buildKey db key KEY_TYPE_STRING None) = Str []"
    by (simp add: getDynamicProperty_set)
  show ?thesis
    using assms nat str
    by (simp add: set_value_empty_string has_def unload_def get_value_def cacheValue_def
        truthy_def Let_def)
qed

theorem empty_string_present_but_read_absent_witness:
  "trim (ascii ''k'') \<noteq> [] \<and>
   (\<exists>db1 s1. set_value silent_builtins (disableCache (new_database (ascii ''db'') 0))
              empty_substrate (ascii ''k'') (Str []) = Inr (db1, s1) \<and>
      has db1 s1 (ascii ''k'') \<and>
      get_value silent_builtins db1 s1 (ascii ''k'') = Inr (Undefined, db1))"
  using empty_string_present_but_read_absent
    [of "ascii ''k''" silent_builtins "disableCache (new_database (ascii ''db'') 0)" empty_substrate]
  by (auto simp: trim_def ascii_def is_space_def disableCache_def new_database_def)

text \<open>
  The statement of C10 for every non-empty key fails on a key of white space only:
  \<open>set\<close> and \<open>get\<close> reject it, so the empty string is never stored under it (here, on
  an empty property store, \<open>has\<close> is false for it).
\<close>

theorem blank_key_rejected:
  "set_value silent_builtins (new_database (ascii ''db'') 0) empty_substrate (ascii '' '') (Str [])
     = Inl InvalidKey \<and>
   has (new_database (ascii ''db'') 0) empty_substrate (ascii '' '') = False \<and>
   get_value silent_builtins (new_database (ascii ''db'') 0) empty_substrate (ascii '' '')
     = Inl InvalidKey"
proof -
  have "trim (ascii '' '') = []"
    by (simp add: trim_def ascii_def is_space_def)
  then show ?thesis
    by (simp add: set_value_def get_value_def has_def checkKeyExists_def getDynamicProperty_def
        new_database_def empty_substrate_def)
qed

section \<open>Chunk entries that outlive their key\<close>

text \<open>
  Neither \<open>set\<close> nor \<open>delete\<close> touches a DATA_CHUNK entry of the key that the new
  encoding does not overwrite.
\<close>

lemma set_value_keeps_other_chunks:
  assumes "trim key \<noteq> []" "set_value B db s key v = Inr (db1, s1)"
    and "\<And>p. payload B v = Some p \<Longrightarrow> MAX_CHUNK_SIZE < length p \<Longrightarrow> length (splitIntoChunks p) \<le> i"
  shows "getDynamicProperty s1 (buildKey db key KEY_TYPE_DATA_CHUNK (Some i)) =
         getDynamicProperty s (buildKey db key KEY_TYPE_DATA_CHUNK (Some i))"
proof (cases "v = Undefined")
  case True
  with assms(1,2) have "s1 = deleteKeyChunks db s key"
    by (auto simp: set_value_def Let_def)
  then show ?thesis by (simp add: deleteKeyChunks_keeps_data)
next
  case False
  show ?thesis
  proof (cases "payload B v")
    case None
    with assms(1,2) False have "s1 = setDynamicProperty (buildKey db key KEY_TYPE_NATIVE None) v
        (deleteKeyChunks db s key)"
      by (simp add: set_value_native)
    then show ?thesis
      by (simp add: getDynamicProperty_set buildKey_data_neq_single deleteKeyChunks_keeps_data)
  next
    case (Some p)
    with assms(1,2) have s1: "s1 = store_text db key p (deleteKeyChunks db s key)"
      by (simp add: set_value_text)
    show ?thesis
    proof (cases "MAX_CHUNK_SIZE < length p")
      case True
      with assms(3) Some have "length (splitIntoChunks p) \<le> i" by simp
      then have "\<And>j. j < length (splitIntoChunks p) \<Longrightarrow>
          buildKey db key KEY_TYPE_DATA_CHUNK (Some i) \<noteq> buildKey db key KEY_TYPE_DATA_CHUNK (Some (0 + j))"
        by (simp add: buildKey_data_inj)
      then have "getDynamicProperty (write_chunks db key (splitIntoChunks p)
            (setDynamicProperty (buildKey db key KEY_TYPE_META_CHUNK None)
               (Num (real (length (splitIntoChunks p)))) (deleteKeyChunks db s key)))
          (buildKey db key KEY_TYPE_DATA_CHUNK (Some i)) =
        getDynamicProperty (setDynamicProperty (buildKey db key KEY_TYPE_META_CHUNK None)
               (Num (real (length (splitIntoChunks p)))) (deleteKeyChunks db s key))
          (buildKey db key KEY_TYPE_DATA_CHUNK (Some i))"
        unfolding write_chunks_def by (rule getDynamicProperty_fold_other)
      with True s1 show ?thesis
        by (simp add: store_text_def getDynamicProperty_set buildKey_data_neq_single
            deleteKeyChunks_keeps_data)
    next
      case False
      with s1 show ?thesis
        by (simp add: store_text_def getDynamicProperty_set buildKey_data_neq_single
            deleteKeyChunks_keeps_data)
    qed
  qed
qed

lemma delete_keeps_chunks:
  assumes "delete db s key = Inr (existed, db1, s1)"
  shows "getDynamicProperty s1 (buildKey db key KEY_TYPE_DATA_CHUNK (Some i)) =
         getDynamicProperty s (buildKey db key KEY_TYPE_DATA_CHUNK (Some i))"
  using assms by (auto simp: delete_def Let_def deleteKeyChunks_keeps_data split: if_splits)

lemma show_nat_small: "n < 10 \<Longrightarrow> show_nat n = [digit n]"
  by (subst show_nat.simps) simp

lemma splitIntoChunks_big_text:
  "splitIntoChunks big_text = [replicate 32767 0x61, replicate 7233 0x61]"
proof -
  have 1: "split_from big_text 0 = take MAX_CHUNK_SIZE (drop 0 big_text) # split_from big_text (0 + MAX_CHUNK_SIZE)"
    by (rule split_from_step) (simp add: big_text_def)
  have 2: "split_from big_text (0 + MAX_CHUNK_SIZE) =
      take MAX_CHUNK_SIZE (drop (0 + MAX_CHUNK_SIZE) big_text) # split_from big_text (0 + MAX_CHUNK_SIZE + MAX_CHUNK_SIZE)"
    by (rule split_from_step) (simp add: big_text_def MAX_CHUNK_SIZE_def)
  have 3: "split_from big_text (0 + MAX_CHUNK_SIZE + MAX_CHUNK_SIZE) = []"
    by (rule split_from_done) (simp add: big_text_def MAX_CHUNK_SIZE_def)
  show ?thesis
    unfolding splitIntoChunks_def 1 2 3
    by (simp add: big_text_def MAX_CHUNK_SIZE_def)
qed

lemma length_big_text: "length big_text = 40000"
  by (simp add: big_text_def)

lemmas id_defs = buildKey_def new_database_def INTERNAL_DB_PREFIX_def KEY_TYPE_NATIVE_def
  KEY_TYPE_STRING_def KEY_TYPE_META_CHUNK_def KEY_TYPE_DATA_CHUNK_def ascii_def
  show_nat_small digit_def

lemma store_big_text:
  "store_text (new_database (ascii ''db'') 0) (ascii ''k'') big_text
     (deleteKeyChunks (new_database (ascii ''db'') 0) empty_substrate (ascii ''k'')) =
   \<lparr>props =
      [(buildKey (new_database (ascii ''db'') 0) (ascii ''k'') KEY_TYPE_META_CHUNK None, Num 2),
       (buildKey (new_database (ascii ''db'') 0) (ascii ''k'') KEY_TYPE_DATA_CHUNK (Some 0),
          Str (replicate 32767 0x61)),
       (buildKey (new_database (ascii ''db'') 0) (ascii ''k'') KEY_TYPE_DATA_CHUNK (Some 1),
          Str (replicate 7233 0x61))],
     writes =
      [(buildKey (new_database (ascii ''db'') 0) (ascii ''k'') KEY_TYPE_NATIVE None, Undefined),
       (buildKey (new_database (ascii ''db'') 0) (ascii ''k'') KEY_TYPE_STRING None, Undefined),
       (buildKey (new_database (ascii ''db'') 0) (ascii ''k'') KEY_TYPE_META_CHUNK None, Undefined),
       (buildKey (new_database (ascii ''db'') 0) (ascii ''k'') KEY_TYPE_META_CHUNK None, Num 2),
       (buildKey (new_database (ascii ''db'') 0) (ascii ''k'') KEY_TYPE_DATA_CHUNK (Some 0),
          Str (replicate 32767 0x61)),
       (buildKey (new_database (ascii ''db'') 0) (ascii ''k'') KEY_TYPE_DATA_CHUNK (Some 1),
          Str (replicate 7233 0x61))]\<rparr>"
  by (simp add: store_text_def splitIntoChunks_big_text deleteKeyChunks_eq write_chunks_def
      setDynamicProperty_def empty_substrate_def id_defs MAX_CHUNK_SIZE_def length_big_text)

lemma payload_simps [simp]:
  "payload B (Str p) = Some p" "payload B (Num r) = None" "payload B (Bool b) = None"
  by (simp_all add: payload_def typeof_object_def)

lemma deleteKeyChunks_cong:
  "fullPrefixBase db' = fullPrefixBase db \<Longrightarrow> deleteKeyChunks db' = deleteKeyChunks db"
  using buildKey_cong [of db' db] by (simp add: deleteKeyChunks_eq fun_eq_iff)

text \<open>
  C1 claims that \<open>set\<close> erases every DATA_CHUNK entry of the previous encoding. It does
  not: \<open>_deleteKeyChunks\<close> reads the chunk count after it has erased the META_CHUNK
  entry, so the loop over the chunks never runs. After a string of 40000 characters
  (two chunks) is stored under \<open>k\<close> and \<open>k\<close> is then set to the number 1, both chunk
  entries are still in the property store, beside the new NATIVE entry.
\<close>

theorem stale_chunks_after_second_set:
  "(case set_set B (new_database (ascii ''db'') 0) empty_substrate (ascii ''k'')
           (Str big_text) (Num 1) of
      Inl e \<Rightarrow> []
    | Inr (db2, s2) \<Rightarrow> props s2) =
   [(buildKey (new_database (ascii ''db'') 0) (ascii ''k'') KEY_TYPE_DATA_CHUNK (Some 0),
       Str (replicate 32767 0x61)),
    (buildKey (new_database (ascii ''db'') 0) (ascii ''k'') KEY_TYPE_DATA_CHUNK (Some 1),
       Str (replicate 7233 0x61)),
    (buildKey (new_database (ascii ''db'') 0) (ascii ''k'') KEY_TYPE_NATIVE None, Num 1)]"
proof -
  let ?db = "new_database (ascii ''db'') 0"
  let ?k = "ascii ''k''"
  let ?db1 = "after_set ?db ?k (Str big_text)"
  let ?s1 = "store_text ?db ?k big_text (deleteKeyChunks ?db empty_substrate ?k)"
  have bk: "buildKey ?db1 = buildKey ?db"
    by (rule buildKey_cong) simp
  have first: "set_value B ?db empty_substrate ?k (Str big_text) = Inr (?db1, ?s1)"
    by (rule set_value_text) simp_all
  have second: "set_value B ?db1 ?s1 ?k (Num 1) =
      Inr (after_set ?db1 ?k (Num 1),
           setDynamicProperty (buildKey ?db1 ?k KEY_TYPE_NATIVE None) (Num 1)
             (deleteKeyChunks ?db1 ?s1 ?k))"
    by (rule set_value_native) simp_all
  have "props (setDynamicProperty (buildKey ?db ?k KEY_TYPE_NATIVE None) (Num 1)
             (deleteKeyChunks ?db ?s1 ?k)) =
    [(buildKey ?db ?k KEY_TYPE_DATA_CHUNK (Some 0), Str (replicate 32767 0x61)),
     (buildKey ?db ?k KEY_TYPE_DATA_CHUNK (Some 1), Str (replicate 7233 0x61)),
     (buildKey ?db ?k KEY_TYPE_NATIVE None, Num 1)]"
    unfolding store_big_text
    by (simp add: deleteKeyChunks_eq setDynamicProperty_def id_defs)
  moreover have "deleteKeyChunks ?db1 = deleteKeyChunks ?db"
    by (rule deleteKeyChunks_cong) simp
  ultimately show ?thesis
    by (simp add: set_set_def first second bk)
qed

text \<open>
  C2 claims that \<open>delete\<close> removes every DATA_CHUNK entry of a chunked key and that a
  store rebuilt from the property store reports the key absent. After the same string
  is stored and deleted, \<open>delete\<close> returns true and \<open>has(k)\<close> is false on the
  instance, but both chunk entries remain, and the index a new instance rebuilds from
  them contains \<open>k\<close>, so its \<open>has(k)\<close> is true. (The database id \<open>db\<close> has no
  pattern metacharacter.)
\<close>

theorem stale_chunks_after_delete:
  "literal_pattern (ascii ''db'') \<and>
   set_delete_restart B (new_database (ascii ''db'') 0) empty_substrate (ascii ''k'') (Str big_text) =
     Inr (True, False,
          [buildKey (new_database (ascii ''db'') 0) (ascii ''k'') KEY_TYPE_DATA_CHUNK (Some 0),
           buildKey (new_database (ascii ''db'') 0) (ascii ''k'') KEY_TYPE_DATA_CHUNK (Some 1)],
          True)"
proof -
  let ?db = "new_database (ascii ''db'') 0"
  let ?k = "ascii ''k''"
  let ?db1 = "after_set ?db ?k (Str big_text)"
  let ?s1 = "store_text ?db ?k big_text (deleteKeyChunks ?db empty_substrate ?k)"
  let ?s2 = "deleteKeyChunks ?db ?s1 ?k"
  let ?db2 = "?db1\<lparr>dataCache := (dataCache ?db1)(?k := None),
                    knownKeys := set_delete ?k (knownKeys ?db1)\<rparr>"
  have bk: "buildKey ?db1 = buildKey ?db"
    by (rule buildKey_cong) simp
  have first: "set_value B ?db empty_substrate ?k (Str big_text) = Inr (?db1, ?s1)"
    by (rule set_value_text) simp_all
  have existed: "has ?db1 ?s1 ?k"
    by (simp add: has_def)
  have dk: "deleteKeyChunks ?db1 = deleteKeyChunks ?db"
    by (rule deleteKeyChunks_cong) simp
  have del: "delete ?db1 ?s1 ?k = Inr (True, ?db2, ?s2)"
    using existed by (simp add: delete_def dk)
  have s2: "props ?s2 =
    [(buildKey ?db ?k KEY_TYPE_DATA_CHUNK (Some 0), Str (replicate 32767 0x61)),
     (buildKey ?db ?k KEY_TYPE_DATA_CHUNK (Some 1), Str (replicate 7233 0x61))]"
    unfolding store_big_text
    by (simp add: deleteKeyChunks_eq setDynamicProperty_def id_defs)
  have gone: "\<not> has ?db2 ?s2 ?k"
    by (simp add: has_def after_set_def set_add_def set_delete_def checkKeyExists_def
        getDynamicProperty_def s2 bk) (simp add: id_defs)
  have "map_sum id knownKeys
          (initializeFromProperties B (new_database (databaseId ?db) (storageSource ?db)) ?s2) =
        Inr [?k]"
    by (simp add: initializeFromProperties_def keyRegex_def getDynamicPropertyIds_def s2 Let_def)
       (simp add: id_defs literal_pattern_def startsWith_def match_here_def match_single_def
          chunk_tail_def line_terminator_def is_digit_def set_add_def)
  then obtain fresh where
    fresh: "initializeFromProperties B (new_database (databaseId ?db) (storageSource ?db)) ?s2 =
      Inr fresh" and index: "knownKeys fresh = [?k]"
    by (cases "initializeFromProperties B (new_database (databaseId ?db) (storageSource ?db)) ?s2")
       auto
  have again: "has fresh ?s2 ?k"
    by (simp add: has_def index)
  have "literal_pattern (ascii ''db'')"
    by (simp add: literal_pattern_def ascii_def)
  then show ?thesis
    using gone again
    by (simp add: set_delete_restart_def first del fresh getDynamicPropertyIds_def s2)
qed

section \<open>A missing chunk\<close>

text \<open>
  Whenever a chunk below the recorded count is missing, the text \<open>get\<close> rebuilds
  contains the word \<open>undefined\<close>, and \<open>get\<close> returns what \<open>JSON.parse\<close> makes of
  that text, or the text itself.
\<close>

lemma missing_chunk_text:
  assumes "i < loop_rounds n"
    and "getDynamicProperty s (buildKey db key KEY_TYPE_DATA_CHUNK (Some i)) = Undefined"
  shows "sublist (ascii ''undefined'') (read_chunks B db s key n)"
proof -
  let ?f = "\<lambda>i. to_string B (getDynamicProperty s (buildKey db key KEY_TYPE_DATA_CHUNK (Some i)))"
  have "[0..<loop_rounds n] = [0..<i] @ i # [Suc i..<loop_rounds n]"
    using assms(1) by (metis le0 upt_add_eq_append upt_conv_Cons le_add_diff_inverse less_imp_le_nat)
  then have "read_chunks B db s key n =
      concat (map ?f [0..<i]) @ ?f i @ concat (map ?f [Suc i..<loop_rounds n])"
    by (simp add: read_chunks_def)
  with assms(2) show ?thesis
    by (simp add: sublist_def) blast
qed

lemma missing_chunk_result:
  assumes "trim key \<noteq> []" "dataCache db key = None"
    and "getDynamicProperty s (buildKey db key KEY_TYPE_NATIVE None) = Undefined"
    and "getDynamicProperty s (buildKey db key KEY_TYPE_STRING None) = Undefined"
    and "getDynamicProperty s (buildKey db key KEY_TYPE_META_CHUNK None) = Num n"
    and "i < loop_rounds n"
    and "getDynamicProperty s (buildKey db key KEY_TYPE_DATA_CHUNK (Some i)) = Undefined"
  shows "\<exists>text. sublist (ascii ''undefined'') text \<and>
           get_value B db s key =
             Inr (cacheValue db key (case JSON_parse B text of Some v \<Rightarrow> v | None \<Rightarrow> Str text))"
proof -
  let ?text = "read_chunks B db s key n"
  have sub: "sublist (ascii ''undefined'') ?text"
    using assms(6,7) by (rule missing_chunk_text)
  then have "?text \<noteq> []"
    by (auto simp: ascii_def)
  with assms(1-5) have "get_value B db s key =
      Inr (cacheValue db key (case JSON_parse B ?text of Some v \<Rightarrow> v | None \<Rightarrow> Str ?text))"
    by (simp add: get_value_def checkKeyExists_def split: option.splits)
  with sub show ?thesis by blast
qed

text \<open>
  C5 claims that a missing chunk makes \<open>get\<close> return \<open>undefined\<close>. With a META_CHUNK
  count of 1 and no DATA_CHUNK entry, the read path appends the missing property to the
  string as the text \<open>undefined\<close> and decodes that text: \<open>JSON.parse\<close> rejects it, so
  the caller gets the string \<open>undefined\<close>.
\<close>

theorem missing_chunk_read_as_text:
  "get_value B (new_database (ascii ''db'') 0)
     \<lparr>props = [(buildKey (new_database (ascii ''db'') 0) (ascii ''k'') KEY_TYPE_META_CHUNK None, Num 1)],
      writes = []\<rparr>
     (ascii ''k'') =
   Inr (cacheValue (new_database (ascii ''db'') 0) (ascii ''k'') (decode B (ascii ''undefined'')))"
proof -
  let ?db = "new_database (ascii ''db'') 0"
  let ?k = "ascii ''k''"
  let ?s = "\<lparr>props = [(buildKey ?db ?k KEY_TYPE_META_CHUNK None, Num 1)], writes = []\<rparr>"
  have n: "getDynamicProperty ?s (buildKey ?db ?k KEY_TYPE_NATIVE None) = Undefined"
    and s: "getDynamicProperty ?s (buildKey ?db ?k KEY_TYPE_STRING None) = Undefined"
    and m: "getDynamicProperty ?s (buildKey ?db ?k KEY_TYPE_META_CHUNK None) = Num 1"
    and d: "getDynamicProperty ?s (buildKey ?db ?k KEY_TYPE_DATA_CHUNK (Some 0)) = Undefined"
    by (simp_all add: getDynamicProperty_def buildKey_single_neq buildKey_data_neq_single)
  have rounds: "loop_rounds 1 = 1"
    by (simp add: loop_rounds_def)
  have chunks: "read_chunks B ?db ?s ?k 1 = ascii ''undefined''"
    by (simp add: read_chunks_def rounds d)
  have cache: "dataCache ?db ?k = None"
    by (simp add: new_database_def)
  have parse_arg: "ascii ''undefined'' \<noteq> []"
    by (simp add: ascii_def)
  show ?thesis
    using n s m chunks cache parse_arg
    by (simp add: get_value_def checkKeyExists_def decode_def split: option.splits)
qed

section \<open>The scope of clear\<close>

lemma props_fold_delete:
  "props (fold (\<lambda>ident. setDynamicProperty ident Undefined) ids s) =
     filter (\<lambda>(i, v). i \<notin> set ids) (props s)"
proof (induction ids arbitrary: s)
  case Nil
  then show ?case by simp
next
  case (Cons a ids)
  have "props (setDynamicProperty a Undefined s) = filter (\<lambda>(i, v). i \<noteq> a) (props s)"
    by (auto simp: setDynamicProperty_def AList.delete_eq intro!: filter_cong)
  with Cons.IH [of "setDynamicProperty a Undefined s"] show ?case
    by (auto intro!: filter_cong)
qed

lemma writes_fold_delete:
  "writes (fold (\<lambda>ident. setDynamicProperty ident Undefined) ids s) =
     writes s @ map (\<lambda>i. (i, Undefined)) ids"
  by (induction ids arbitrary: s) (simp_all add: writes_set)

lemma props_clear:
  "props (snd (clear db s)) =
     filter (\<lambda>(i, v). \<not> startsWith i (fullPrefixBase db)) (props s)"
  by (force simp: clear_def props_fold_delete getDynamicPropertyIds_def intro!: filter_cong)

lemma writes_clear:
  "writes (snd (clear db s)) =
     writes s @ map (\<lambda>i. (i, Undefined))
                  (filter (\<lambda>i. startsWith i (fullPrefixBase db)) (getDynamicPropertyIds s))"
  by (simp add: clear_def writes_fold_delete)

lemma two_prefixes_comparable:
  "prefix p s \<Longrightarrow> prefix q s \<Longrightarrow> prefix p q \<or> prefix q p"
  by (metis prefix_same_cases)

text \<open>
  C6 (as amended). \<open>clear()\<close> removes exactly the entries whose id starts with the
  prefix of its store. The entries whose id starts with the prefix of another store are
  left as they were when neither database id followed by \<open>_\<close> is a prefix of the
  other database id followed by \<open>_\<close>.
\<close>

theorem clear_scope:
  assumes "fullPrefixBase db1 = INTERNAL_DB_PREFIX @ id1 @ ascii ''_''"
    and "fullPrefixBase db2 = INTERNAL_DB_PREFIX @ id2 @ ascii ''_''"
    and "\<not> prefix (id1 @ ascii ''_'') (id2 @ ascii ''_'')"
    and "\<not> prefix (id2 @ ascii ''_'') (id1 @ ascii ''_'')"
  shows "props (snd (clear db1 s)) =
           filter (\<lambda>(i, v). \<not> startsWith i (fullPrefixBase db1)) (props s) \<and>
         filter (\<lambda>(i, v). startsWith i (fullPrefixBase db2)) (props (snd (clear db1 s))) =
           filter (\<lambda>(i, v). startsWith i (fullPrefixBase db2)) (props s)"
proof -
  have disjoint: "\<not> (startsWith i (fullPrefixBase db1) \<and> startsWith i (fullPrefixBase db2))" for i
  proof
    assume "startsWith i (fullPrefixBase db1) \<and> startsWith i (fullPrefixBase db2)"
    then have "prefix (fullPrefixBase db1) (fullPrefixBase db2) \<or>
               prefix (fullPrefixBase db2) (fullPrefixBase db1)"
      unfolding startsWith_def by (metis two_prefixes_comparable)
    with assms show False by simp
  qed
  have "filter (\<lambda>(i, v). startsWith i (fullPrefixBase db2))
          (filter (\<lambda>(i, v). \<not> startsWith i (fullPrefixBase db1)) (props s)) =
        filter (\<lambda>(i, v). startsWith i (fullPrefixBase db2)) (props s)"
    using disjoint by (auto intro!: filter_cong)
  then show ?thesis by (simp add: props_clear)
qed

theorem clear_scope_witness:
  "\<not> prefix (ascii ''a'' @ ascii ''_'') (ascii ''b'' @ ascii ''_'') \<and>
   \<not> prefix (ascii ''b'' @ ascii ''_'') (ascii ''a'' @ ascii ''_'') \<and>
   props (snd (clear (new_database (ascii ''a'') 0)
     \<lparr>props = [(buildKey (new_database (ascii ''a'') 0) (ascii ''k'') KEY_TYPE_NATIVE None, Num 1),
                (buildKey (new_database (ascii ''b'') 0) (ascii ''k'') KEY_TYPE_NATIVE None, Num 2)],
       writes = []\<rparr>)) =
     [(buildKey (new_database (ascii ''b'') 0) (ascii ''k'') KEY_TYPE_NATIVE None, Num 2)]"
  using clear_scope [of "new_database (ascii ''a'') 0" "ascii ''a''"
      "new_database (ascii ''b'') 0" "ascii ''b''"
      "\<lparr>props = [(buildKey (new_database (ascii ''a'') 0) (ascii ''k'') KEY_TYPE_NATIVE None, Num 1),
                (buildKey (new_database (ascii ''b'') 0) (ascii ''k'') KEY_TYPE_NATIVE None, Num 2)],
       writes = []\<rparr>"]
  by (simp add: id_defs startsWith_def)

text \<open>
  Distinct database ids are not enough: \<open>clear()\<close> on the store \<open>a\<close> removes the
  entry the store \<open>a_b\<close> wrote.
\<close>

theorem clear_scope_counterexample:
  "ascii ''a'' \<noteq> ascii ''a_b'' \<and>
   (case set_value silent_builtins (new_database (ascii ''a_b'') 0) empty_substrate
           (ascii ''k'') (Num 1) of
      Inl e \<Rightarrow> False
    | Inr (db2, s1) \<Rightarrow>
        props s1 = [(buildKey (new_database (ascii ''a_b'') 0) (ascii ''k'') KEY_TYPE_NATIVE None, Num 1)] \<and>
        props (snd (clear (new_database (ascii ''a'') 0) s1)) = [])"
proof -
  let ?db = "new_database (ascii ''a_b'') 0"
  let ?k = "ascii ''k''"
  have "set_value silent_builtins ?db empty_substrate ?k (Num 1) =
      Inr (after_set ?db ?k (Num 1),
           setDynamicProperty (buildKey ?db ?k KEY_TYPE_NATIVE None) (Num 1)
             (deleteKeyChunks ?db empty_substrate ?k))"
    by (rule set_value_native) simp_all
  moreover have "props (setDynamicProperty (buildKey ?db ?k KEY_TYPE_NATIVE None) (Num 1)
             (deleteKeyChunks ?db empty_substrate ?k)) =
      [(buildKey ?db ?k KEY_TYPE_NATIVE None, Num 1)]"
    by (simp add: deleteKeyChunks_eq setDynamicProperty_def empty_substrate_def)
  moreover have "startsWith (buildKey ?db ?k KEY_TYPE_NATIVE None)
      (fullPrefixBase (new_database (ascii ''a'') 0))"
    by (simp add: id_defs startsWith_def)
  moreover have "ascii ''a'' \<noteq> ascii ''a_b''"
    by (simp add: ascii_def)
  ultimately show ?thesis
    by (simp add: props_clear)
qed

section \<open>The two copies of the class\<close>

lemma ceiling_div_nat:
  fixes a c :: nat
  assumes "0 < c"
  shows "nat \<lceil>real a / real c\<rceil> = (a + c - 1) div c"
proof -
  define q where "q = (a + c - 1) div c"
  have up: "q * c \<le> a + c - 1"
    by (simp add: q_def)
  have "a + c - 1 < c + q * c"
    unfolding q_def using assms by (rule dividend_less_div_times)
  then have low: "a \<le> q * c"
    using assms by simp
  have "real a \<le> real (q * c)"
    using low by (simp only: of_nat_le_iff)
  then have 1: "real a / real c \<le> real q"
    using assms by (simp add: divide_le_eq)
  have "q * c < a + c"
    using up assms by simp
  then have "real (q * c) < real (a + c)"
    by (simp only: of_nat_less_iff)
  then have 2: "real q - 1 < real a / real c"
    using assms by (simp add: less_divide_eq algebra_simps)
  have "\<lceil>real a / real c\<rceil> = int q"
    by (rule ceiling_unique) (use 1 2 in simp_all)
  then show ?thesis
    by (simp add: q_def)
qed

lemma length_splitIntoChunks:
  "length (splitIntoChunks p) = (length p + MAX_CHUNK_SIZE - 1) div MAX_CHUNK_SIZE"
  by (simp add: splitIntoChunks_def length_split_from)

lemma length_splitIntoChunks_ceiling:
  "length (splitIntoChunks p) = nat \<lceil>real (length p) / real MAX_CHUNK_SIZE\<rceil>"
  by (simp add: length_splitIntoChunks ceiling_div_nat)

lemma nth_splitIntoChunks:
  "i < length (splitIntoChunks p) \<Longrightarrow>
   splitIntoChunks p ! i = take MAX_CHUNK_SIZE (drop (i * MAX_CHUNK_SIZE) p)"
  using nth_split_from [of i p 0] by (simp add: splitIntoChunks_def)

lemma splitIntoChunks_eq_map:
  "splitIntoChunks p =
     map (\<lambda>i. substr p (i * MAX_CHUNK_SIZE) MAX_CHUNK_SIZE) [0..<length (splitIntoChunks p)]"
  by (rule nth_equalityI) (simp_all add: nth_splitIntoChunks substr_def)

lemma enumerate_map_upt:
  "enumerate 0 (map f [0..<n]) = map (\<lambda>i. (i, f i)) [0..<n]"
  by (rule nth_equalityI) (simp_all add: nth_enumerate_eq)

lemma write_chunks_eq_loop:
  "write_chunks db key (splitIntoChunks p) s =
     fold (\<lambda>i. setDynamicProperty (buildKey db key KEY_TYPE_DATA_CHUNK (Some i))
                  (Str (substr p (i * MAX_CHUNK_SIZE) MAX_CHUNK_SIZE)))
       [0..<length (splitIntoChunks p)] s"
proof -
  let ?n = "length (splitIntoChunks p)"
  let ?f = "\<lambda>i. substr p (i * MAX_CHUNK_SIZE) MAX_CHUNK_SIZE"
  have "enumerate 0 (splitIntoChunks p) = map (\<lambda>i. (i, ?f i)) [0..<?n]"
    using enumerate_map_upt [of ?f ?n] splitIntoChunks_eq_map [of p] by simp
  then show ?thesis
    by (simp add: write_chunks_def fold_map comp_def)
qed

lemma set_value1_eq:
  "trim key \<noteq> [] \<Longrightarrow> set_value1 B db s key v = set_value B db s key v"
  by (simp add: set_value1_def set_value_def write_chunks_eq_loop length_splitIntoChunks_ceiling
      Let_def cong: jsval.case_cong if_cong)

lemma get_value1_eq:
  "trim key \<noteq> [] \<Longrightarrow> get_value1 B db s key = get_value B db s key"
  by (simp add: get_value1_def get_value_def)

lemma has1_eq: "has1 db s key = has db s key"
  by (simp add: has1_def has_def)

lemma delete1_eq:
  "trim key \<noteq> [] \<Longrightarrow> delete1 db s key = delete db s key"
  by (simp add: delete1_def delete_def has1_eq)

lemma clear1_eq: "clear1 db s = clear db s"
  by (simp add: clear1_def clear_def)

lemma construct1_eq:
  "trim ident \<noteq> [] \<Longrightarrow> construct1 B ident source w = construct B ident source w"
  by (simp add: construct1_def construct_def)

lemma entries_loop1_eq:
  "\<forall>k \<in> set ks. trim k \<noteq> [] \<Longrightarrow> entries_loop1 B s ks db = entries_loop B s ks db"
  by (induction ks arbitrary: db) (simp_all add: get_value1_eq split: sum.splits prod.splits)

text \<open>
  C9 (as amended). On a database id and a key that contain a character that is not
  white space, and an index whose keys all do, every operation of the first copy in the
  second file gives the result of the class in the first file, with the same property
  store afterwards and the same log of writes.
\<close>

theorem copies_agree_on_valid_names:
  assumes "trim ident \<noteq> []" "trim key \<noteq> []" "\<forall>k \<in> set (knownKeys db). trim k \<noteq> []"
  shows "construct1 B ident source w = construct B ident source w \<and>
         set_value1 B db s key v = set_value B db s key v \<and>
         get_value1 B db s key = get_value B db s key \<and>
         delete1 db s key = delete db s key \<and>
         clear1 db s = clear db s \<and>
         has1 db s key = has db s key \<and>
         entries1 B db s = entries B db s"
  using assms
  by (simp add: construct1_eq set_value1_eq get_value1_eq delete1_eq clear1_eq has1_eq
      entries1_def entries_def keys_def entries_loop1_eq)

theorem copies_agree_on_valid_names_witness:
  "trim (ascii ''db'') \<noteq> [] \<and> trim (ascii ''k'') \<noteq> [] \<and>
   list_all (\<lambda>k. trim k \<noteq> [])
     (knownKeys (after_set (new_database (ascii ''db'') 0) (ascii ''k'') (Num 1))) \<and>
   set_value1 silent_builtins (after_set (new_database (ascii ''db'') 0) (ascii ''k'') (Num 1))
       empty_substrate (ascii ''k'') (Num 2) =
     set_value silent_builtins (after_set (new_database (ascii ''db'') 0) (ascii ''k'') (Num 1))
       empty_substrate (ascii ''k'') (Num 2) \<and>
   entries1 silent_builtins (after_set (new_database (ascii ''db'') 0) (ascii ''k'') (Num 1))
       empty_substrate =
     entries silent_builtins (after_set (new_database (ascii ''db'') 0) (ascii ''k'') (Num 1))
       empty_substrate \<and>
   construct1 silent_builtins (ascii ''db'') 0 initial_world =
     construct silent_builtins (ascii ''db'') 0 initial_world"
proof -
  have db: "trim (ascii ''db'') \<noteq> []"
    by (simp add: trim_def ascii_def is_space_def)
  have keys: "knownKeys (after_set (new_database (ascii ''db'') 0) (ascii ''k'') (Num 1)) = [ascii ''k'']"
    by (simp add: after_set_def new_database_def set_add_def)
  show ?thesis
    using copies_agree_on_valid_names [where ident = "ascii ''db''" and key = "ascii ''k''"
        and db = "after_set (new_database (ascii ''db'') 0) (ascii ''k'') (Num 1)"
        and source = 0 and w = initial_world and B = silent_builtins and s = empty_substrate
        and v = "Num 2"]
    by (simp add: db keys)
qed

text \<open>
  On the empty key the copies differ: the class in the first file throws, the copy in
  the second file writes the entry. On the empty database id the first throws and the
  second constructs an instance.
\<close>

theorem copies_differ_on_blank_names:
  "set_value silent_builtins (new_database (ascii ''db'') 0) empty_substrate [] (Num 1) =
     Inl InvalidKey \<and>
   (case set_value1 silent_builtins (new_database (ascii ''db'') 0) empty_substrate [] (Num 1) of
      Inl e \<Rightarrow> []
    | Inr (db1, s1) \<Rightarrow> props s1) =
     [(buildKey (new_database (ascii ''db'') 0) [] KEY_TYPE_NATIVE None, Num 1)] \<and>
   construct silent_builtins [] 0 initial_world = Inl InvalidDatabaseId \<and>
   (case construct1 silent_builtins [] 0 initial_world of
      Inl e \<Rightarrow> 0
    | Inr (h, w) \<Rightarrow> length (instances w)) = 1"
  by (simp add: set_value_def set_value1_def trim_def typeof_object_def typeof_string_def
      deleteKeyChunks_eq setDynamicProperty_def empty_substrate_def construct_def construct1_def
      registered_def initial_world_def start_world_def initializeFromProperties_def keyRegex_def
      literal_pattern_def new_database_def INTERNAL_DB_PREFIX_def ascii_def
      getDynamicPropertyIds_def Let_def)

section \<open>The chunks of a string\<close>

lemma ceil_mult_ge:
  fixes a c :: nat
  assumes "0 < c"
  shows "a \<le> (a + c - 1) div c * c"
proof -
  have "a + c - 1 < c + (a + c - 1) div c * c"
    using assms by (rule dividend_less_div_times)
  then show ?thesis using assms by simp
qed

lemma below_ceil_mult_less:
  fixes a c i :: nat
  assumes "0 < c" "i < (a + c - 1) div c"
  shows "i * c < a"
proof -
  from assms(2) have "Suc i \<le> (a + c - 1) div c" by simp
  then have "Suc i * c \<le> (a + c - 1) div c * c"
    by (rule mult_le_mono1)
  also have "\<dots> \<le> a + c - 1" by simp
  finally show ?thesis using assms(1) by simp
qed

lemma concat_pieces:
  "concat (map (\<lambda>i. take c (drop (i * c) s)) [0..<n]) = take (n * c) s"
proof (induction n)
  case 0
  then show ?case by simp
next
  case (Suc n)
  have "take (n * c) s @ take c (drop (n * c) s) = take (n * c + c) s"
    by (simp add: take_add)
  with Suc show ?case by (simp add: add.commute)
qed

lemma JSONStorage_splitIntoChunks_eq:
  assumes "0 < c"
  shows "JSONStorage_splitIntoChunks c s =
           Some (map (\<lambda>i. take c (drop (i * c) s)) [0..<(length s + c - 1) div c])"
  using assms by (simp add: JSONStorage_splitIntoChunks_def ceiling_div_nat slice_def)

lemma butlast_upt0: "butlast [0..<n] = [0..<n - 1]"
  by (cases n) simp_all

lemma pieces_properties:
  fixes c :: nat and s :: "'a list"
  assumes "0 < c"
  defines "n \<equiv> (length s + c - 1) div c"
  defines "chunks \<equiv> map (\<lambda>i. take c (drop (i * c) s)) [0..<n]"
  shows "concat chunks = s"
    and "\<forall>x \<in> set chunks. x \<noteq> [] \<and> length x \<le> c"
    and "\<forall>x \<in> set (butlast chunks). length x = c"
proof -
  have "length s \<le> n * c"
    unfolding n_def using assms(1) by (rule ceil_mult_ge)
  then show "concat chunks = s"
    by (simp add: chunks_def concat_pieces)
  show "\<forall>x \<in> set chunks. x \<noteq> [] \<and> length x \<le> c"
  proof
    fix x assume "x \<in> set chunks"
    then obtain i where i: "i < n" and x: "x = take c (drop (i * c) s)"
      by (auto simp: chunks_def)
    from i have "i * c < length s"
      unfolding n_def using assms(1) by (intro below_ceil_mult_less)
    with x assms(1) show "x \<noteq> [] \<and> length x \<le> c" by simp
  qed
  show "\<forall>x \<in> set (butlast chunks). length x = c"
  proof
    fix x assume "x \<in> set (butlast chunks)"
    then obtain i where "i < n - 1" and x: "x = take c (drop (i * c) s)"
      by (auto simp: chunks_def map_butlast [symmetric] butlast_upt0)
    then have i: "Suc i < n" by simp
    from i have "Suc i * c < length s"
      unfolding n_def using assms(1) by (intro below_ceil_mult_less)
    then have "c \<le> length s - i * c" by simp
    with x show "length x = c" by simp
  qed
qed

lemma splitIntoChunks_70000:
  assumes "length p = 70000"
  shows "splitIntoChunks p =
     [take MAX_CHUNK_SIZE p, take MAX_CHUNK_SIZE (drop MAX_CHUNK_SIZE p),
      take MAX_CHUNK_SIZE (drop (2 * MAX_CHUNK_SIZE) p)]"
proof -
  have n: "length (splitIntoChunks p) = 3"
    using assms by (simp add: length_splitIntoChunks MAX_CHUNK_SIZE_def)
  have "[0..<3] = [0, 1, 2]" by (simp add: upt_rec)
  with splitIntoChunks_eq_map [of p] n show ?thesis
    by (simp add: substr_def)
qed

lemma set_value_long_writes:
  assumes "trim key \<noteq> []" "MAX_CHUNK_SIZE < length p"
  shows "\<exists>db1 s1. set_value B db s key (Str p) = Inr (db1, s1) \<and>
     writes s1 = writes s @
       [(buildKey db key KEY_TYPE_NATIVE None, Undefined),
        (buildKey db key KEY_TYPE_STRING None, Undefined),
        (buildKey db key KEY_TYPE_META_CHUNK None, Undefined),
        (buildKey db key KEY_TYPE_META_CHUNK None, Num (real (length (splitIntoChunks p))))] @
       map (\<lambda>(i, chunk). (buildKey db key KEY_TYPE_DATA_CHUNK (Some i), Str chunk))
         (enumerate 0 (splitIntoChunks p))"
  using assms
  by (simp add: set_value_text store_text_def writes_write_chunks writes_set
      writes_deleteKeyChunks)

text \<open>
  C8. \<open>_splitIntoChunks\<close> returns the pieces of its input in order: their concatenation
  is the input, no piece is empty or longer than the chunk size, every piece but the
  last has exactly the chunk size, and there are \<open>ceil(length / size)\<close> of them. The
  class cuts at \<open>MAX_CHUNK_SIZE\<close>; \<open>JSONStorage.#splitIntoChunks\<close> does the same for
  any positive chunk size. A string of 70000 characters gives 3 chunks, and \<open>set\<close>
  of it writes, after erasing the three single entries, the META_CHUNK entry with the
  count 3 and the DATA_CHUNK entries 0, 1 and 2.
\<close>

theorem splitIntoChunks_covers_input:
  "concat (splitIntoChunks s) = s \<and>
   (\<forall>c \<in> set (splitIntoChunks s). c \<noteq> [] \<and> length c \<le> MAX_CHUNK_SIZE) \<and>
   (\<forall>c \<in> set (butlast (splitIntoChunks s)). length c = MAX_CHUNK_SIZE) \<and>
   length (splitIntoChunks s) = nat \<lceil>real (length s) / real MAX_CHUNK_SIZE\<rceil> \<and>
   (0 < chunkSize \<longrightarrow>
      (\<exists>chunks. JSONStorage_splitIntoChunks chunkSize s = Some chunks \<and>
         concat chunks = s \<and>
         (\<forall>c \<in> set chunks. c \<noteq> [] \<and> length c \<le> chunkSize) \<and>
         (\<forall>c \<in> set (butlast chunks). length c = chunkSize) \<and>
         length chunks = nat \<lceil>real (length s) / real chunkSize\<rceil>)) \<and>
   (length s = 70000 \<longrightarrow>
      length (splitIntoChunks s) = 3 \<and>
      (trim key \<noteq> [] \<longrightarrow>
         (\<exists>db1 s1. set_value B db st key (Str s) = Inr (db1, s1) \<and>
            writes s1 = writes st @
              [(buildKey db key KEY_TYPE_NATIVE None, Undefined),
               (buildKey db key KEY_TYPE_STRING None, Undefined),
               (buildKey db key KEY_TYPE_META_CHUNK None, Undefined),
               (buildKey db key KEY_TYPE_META_CHUNK None, Num 3),
               (buildKey db key KEY_TYPE_DATA_CHUNK (Some 0), Str (take MAX_CHUNK_SIZE s)),
               (buildKey db key KEY_TYPE_DATA_CHUNK (Some 1),
                  Str (take MAX_CHUNK_SIZE (drop MAX_CHUNK_SIZE s))),
               (buildKey db key KEY_TYPE_DATA_CHUNK (Some 2),
                  Str (take MAX_CHUNK_SIZE (drop (2 * MAX_CHUNK_SIZE) s)))])))"
proof (intro conjI impI)
  show "concat (splitIntoChunks s) = s"
    by (rule concat_splitIntoChunks)
  show "\<forall>c \<in> set (splitIntoChunks s). c \<noteq> [] \<and> length c \<le> MAX_CHUNK_SIZE"
    using split_from_chunk_bounds [of _ s 0] by (simp add: splitIntoChunks_def)
  show "\<forall>c \<in> set (butlast (splitIntoChunks s)). length c = MAX_CHUNK_SIZE"
    using split_from_full_chunks [of _ s 0] by (simp add: splitIntoChunks_def)
  show "length (splitIntoChunks s) = nat \<lceil>real (length s) / real MAX_CHUNK_SIZE\<rceil>"
    by (rule length_splitIntoChunks_ceiling)
next
  assume pos: "0 < chunkSize"
  let ?chunks = "map (\<lambda>i. take chunkSize (drop (i * chunkSize) s)) [0..<(length s + chunkSize - 1) div chunkSize]"
  have "JSONStorage_splitIntoChunks chunkSize s = Some ?chunks"
    using pos by (rule JSONStorage_splitIntoChunks_eq)
  moreover have "length ?chunks = nat \<lceil>real (length s) / real chunkSize\<rceil>"
    using pos by (simp add: ceiling_div_nat)
  ultimately show "\<exists>chunks. JSONStorage_splitIntoChunks chunkSize s = Some chunks \<and>
         concat chunks = s \<and>
         (\<forall>c \<in> set chunks. c \<noteq> [] \<and> length c \<le> chunkSize) \<and>
         (\<forall>c \<in> set (butlast chunks). length c = chunkSize) \<and>
         length chunks = nat \<lceil>real (length s) / real chunkSize\<rceil>"
    using pieces_properties [OF pos, of s] by blast
next
  assume len: "length s = 70000"
  then show "length (splitIntoChunks s) = 3"
    by (simp add: splitIntoChunks_70000)
  assume key: "trim key \<noteq> []"
  have long: "MAX_CHUNK_SIZE < length s"
    using len by (simp add: MAX_CHUNK_SIZE_def)
  have three: "enumerate 0 (splitIntoChunks s) =
      [(0, take MAX_CHUNK_SIZE s), (1, take MAX_CHUNK_SIZE (drop MAX_CHUNK_SIZE s)),
       (2, take MAX_CHUNK_SIZE (drop (2 * MAX_CHUNK_SIZE) s))]"
    by (simp add: splitIntoChunks_70000 [OF len])
  from set_value_long_writes [OF key long, of B db st]
  show "\<exists>db1 s1. set_value B db st key (Str s) = Inr (db1, s1) \<and>
            writes s1 = writes st @
              [(buildKey db key KEY_TYPE_NATIVE None, Undefined),
               (buildKey db key KEY_TYPE_STRING None, Undefined),
               (buildKey db key KEY_TYPE_META_CHUNK None, Undefined),
               (buildKey db key KEY_TYPE_META_CHUNK None, Num 3),
               (buildKey db key KEY_TYPE_DATA_CHUNK (Some 0), Str (take MAX_CHUNK_SIZE s)),
               (buildKey db key KEY_TYPE_DATA_CHUNK (Some 1),
                  Str (take MAX_CHUNK_SIZE (drop MAX_CHUNK_SIZE s))),
               (buildKey db key KEY_TYPE_DATA_CHUNK (Some 2),
                  Str (take MAX_CHUNK_SIZE (drop (2 * MAX_CHUNK_SIZE) s)))]"
    by (simp add: three splitIntoChunks_70000 [OF len] numeral_2_eq_2)
qed

theorem splitIntoChunks_covers_input_witness:
  "0 < (32000::nat) \<and> length (replicate 70000 (0x61::16 word)) = 70000 \<and>
   trim (ascii ''blob'') \<noteq> [] \<and>
   length (splitIntoChunks (replicate 70000 0x61)) = 3 \<and>
   (\<exists>chunks. JSONStorage_splitIntoChunks 32000 (replicate 70000 0x61) = Some chunks \<and>
      concat chunks = replicate 70000 0x61 \<and> length chunks = 3) \<and>
   (\<exists>db1 s1. set_value silent_builtins (new_database (ascii ''db'') 0) empty_substrate
        (ascii ''blob'') (Str (replicate 70000 0x61)) = Inr (db1, s1) \<and>
      map snd (writes s1) =
        [Undefined, Undefined, Undefined, Num 3, Str (replicate 32767 0x61),
         Str (replicate 32767 0x61), Str (replicate 4466 0x61)])"
proof -
  have key: "trim (ascii ''blob'') \<noteq> []"
    by (simp add: trim_def ascii_def is_space_def)
  have len: "length (replicate 70000 (0x61::16 word)) = 70000"
    by simp
  note all = splitIntoChunks_covers_input
    [of "replicate 70000 0x61" 32000 "ascii ''blob''" silent_builtins
        "new_database (ascii ''db'') 0" empty_substrate]
  have pos: "0 < (32000::nat)" by simp
  have count: "nat \<lceil>real (length (replicate 70000 (0x61::16 word))) / real 32000\<rceil> = 3"
    by simp
  from all pos have
    "\<exists>chunks. JSONStorage_splitIntoChunks 32000 (replicate 70000 0x61) = Some chunks \<and>
       concat chunks = replicate 70000 0x61 \<and>
       length chunks = nat \<lceil>real (length (replicate 70000 (0x61::16 word))) / real 32000\<rceil>"
    by blast
  then have json: "\<exists>chunks. JSONStorage_splitIntoChunks 32000 (replicate 70000 0x61) = Some chunks \<and>
       concat chunks = replicate 70000 0x61 \<and> length chunks = 3"
    by (simp only: count)
  from all len have three: "length (splitIntoChunks (replicate 70000 0x61)) = 3"
    by blast
  from all len key obtain db1 s1 where
    "set_value silent_builtins (new_database (ascii ''db'') 0) empty_substrate
        (ascii ''blob'') (Str (replicate 70000 0x61)) = Inr (db1, s1)"
    and "writes s1 = writes empty_substrate @
              [(buildKey (new_database (ascii ''db'') 0) (ascii ''blob'') KEY_TYPE_NATIVE None, Undefined),
               (buildKey (new_database (ascii ''db'') 0) (ascii ''blob'') KEY_TYPE_STRING None, Undefined),
               (buildKey (new_database (ascii ''db'') 0) (ascii ''blob'') KEY_TYPE_META_CHUNK None, Undefined),
               (buildKey (new_database (ascii ''db'') 0) (ascii ''blob'') KEY_TYPE_META_CHUNK None, Num 3),
               (buildKey (new_database (ascii ''db'') 0) (ascii ''blob'') KEY_TYPE_DATA_CHUNK (Some 0),
                  Str (take MAX_CHUNK_SIZE (replicate 70000 0x61))),
               (buildKey (new_database (ascii ''db'') 0) (ascii ''blob'') KEY_TYPE_DATA_CHUNK (Some 1),
                  Str (take MAX_CHUNK_SIZE (drop MAX_CHUNK_SIZE (replicate 70000 0x61)))),
               (buildKey (new_database (ascii ''db'') 0) (ascii ''blob'') KEY_TYPE_DATA_CHUNK (Some 2),
                  Str (take MAX_CHUNK_SIZE (drop (2 * MAX_CHUNK_SIZE) (replicate 70000 0x61))))]"
    by blast
  then have "\<exists>db1 s1. set_value silent_builtins (new_database (ascii ''db'') 0) empty_substrate
        (ascii ''blob'') (Str (replicate 70000 0x61)) = Inr (db1, s1) \<and>
      map snd (writes s1) =
        [Undefined, Undefined, Undefined, Num 3, Str (replicate 32767 0x61),
         Str (replicate 32767 0x61), Str (replicate 4466 0x61)]"
    by (simp add: empty_substrate_def MAX_CHUNK_SIZE_def)
  with key len pos three json show ?thesis
    by blast
qed

section \<open>One instance for a source and a database id\<close>

text \<open>No method changes the database id, the source or the prefix of an instance.\<close>

lemma same_store_refl [simp]: "same_store db db"
  by (simp add: same_store_def)

lemma same_store_updates [simp]:
  "same_store db (dataCache_update f db1) = same_store db db1"
  "same_store db (knownKeys_update g db1) = same_store db db1"
  "same_store db (autoCache_update k db1) = same_store db db1"
  by (simp_all add: same_store_def)

lemma same_store_cacheValue [simp]: "same_store db (snd (cacheValue db key v))"
  by (simp add: cacheValue_def)

lemma same_store_after_set [simp]: "same_store db (after_set db key v)"
  by (simp add: after_set_def)

lemma set_value_same_store:
  assumes "set_value B db s key v = Inr (db1, s1)"
  shows "same_store db db1"
proof -
  from assms have key: "trim key \<noteq> []"
    by (auto simp: set_value_def split: if_splits)
  show ?thesis
  proof (cases "v = Undefined")
    case True
    with assms key show ?thesis
      by (auto simp: set_value_def Let_def)
  next
    case False
    with assms key show ?thesis
      by (auto simp: set_value_total)
  qed
qed

lemma get_value_same_store:
  assumes "get_value B db s key = Inr (v, db1)"
  shows "same_store db db1"
proof -
  have "db1 = db \<or> (\<exists>x. db1 = snd (cacheValue db key x))"
    using assms
    by (auto simp: get_value_def Let_def split: if_splits option.splits) (metis snd_conv)+
  then show ?thesis by auto
qed

lemma delete_same_store:
  "delete db s key = Inr (existed, db1, s1) \<Longrightarrow> same_store db db1"
  by (auto simp: delete_def Let_def split: if_splits)

lemma clear_same_store: "same_store db (fst (clear db s))"
  by (simp add: clear_def)

lemma load_same_store: "load B db s key = Inr db1 \<Longrightarrow> same_store db db1"
  by (auto simp: load_def split: if_splits sum.splits dest: get_value_same_store)

lemma scan_same_store:
  "same_store db
     (fold (\<lambda>prop d. case matcher prop of
                        Some (Str k) \<Rightarrow> d\<lparr>knownKeys := set_add k (knownKeys d)\<rparr>
                      | _ \<Rightarrow> d) ids db1) = same_store db db1"
  by (induction ids arbitrary: db1) (simp_all split: option.splits jsval.splits)

lemma initializeFromProperties_same_store:
  "initializeFromProperties B db s = Inr db1 \<Longrightarrow> same_store db db1"
  by (auto simp: initializeFromProperties_def Let_def scan_same_store split: option.splits)

text \<open>
  Calls keep the registry consistent, and never remove or change a registration.
\<close>

lemma consistentD:
  assumes "consistent w" "registered w source ident = Some h"
  shows "h < length (instances w)" "databaseId (instances w ! h) = ident"
    "storageSource (instances w ! h) = source"
  using assms unfolding consistent_def by blast+

lemma registered_on_instance [simp]:
  "registered (on_instance h f w) source ident = registered w source ident"
  by (simp add: on_instance_def registered_def Let_def split: prod.splits)

lemma length_on_instance [simp]:
  "length (instances (on_instance h f w)) = length (instances w)"
  by (simp add: on_instance_def Let_def split: prod.splits)

lemma nth_on_instance:
  assumes "\<And>db s. same_store db (fst (f db s))" "i < length (instances w)"
  shows "same_store (instances w ! i) (instances (on_instance h f w) ! i)"
proof (cases "h < length (instances w)")
  case True
  obtain db1 s1 where r: "f (instances w ! h) (sources w (storageSource (instances w ! h))) = (db1, s1)"
    by (cases "f (instances w ! h) (sources w (storageSource (instances w ! h)))")
  with assms(1) [of "instances w ! h" "sources w (storageSource (instances w ! h))"]
  have "same_store (instances w ! h) db1" by simp
  with True r assms(2) show ?thesis
    by (cases "i = h") (simp_all add: on_instance_def Let_def)
next
  case False
  then show ?thesis by (simp add: on_instance_def)
qed

lemma consistent_on_instance:
  assumes "consistent w" "\<And>db s. same_store db (fst (f db s))"
  shows "consistent (on_instance h f w)"
  unfolding consistent_def
proof (intro allI impI)
  fix source ident i
  assume "registered (on_instance h f w) source ident = Some i"
  then have reg: "registered w source ident = Some i" by simp
  with assms(1) have i: "i < length (instances w)"
    and id: "databaseId (instances w ! i) = ident"
    and src: "storageSource (instances w ! i) = source"
    by (auto simp: consistent_def)
  from nth_on_instance [OF assms(2) i, of h]
  have "same_store (instances w ! i) (instances (on_instance h f w) ! i)" .
  with i id src show "i < length (instances (on_instance h f w)) \<and>
      databaseId (instances (on_instance h f w) ! i) = ident \<and>
      storageSource (instances (on_instance h f w) ! i) = source"
    by (simp add: same_store_def)
qed

lemma construct_valid_id:
  "construct B ident source w = Inr (h, w1) \<Longrightarrow> trim ident \<noteq> []"
  by (auto simp: construct_def split: if_splits)

lemma construct_registered:
  "trim ident \<noteq> [] \<Longrightarrow> registered w source ident = Some h \<Longrightarrow>
   construct B ident source w = Inr (h, w)"
  by (simp add: construct_def)

lemma construct_new:
  assumes "registered w source ident = None" "construct B ident source w = Inr (h, w1)"
  shows "\<exists>db. initializeFromProperties B (new_database ident source) (sources w source) = Inr db \<and>
           h = length (instances w) \<and> instances w1 = instances w @ [db] \<and>
           sources w1 = sources w \<and>
           (\<forall>source' ident'. registered w1 source' ident' =
              (if source' = source \<and> ident' = ident then Some h
               else registered w source' ident'))"
  using assms
  by (auto simp: construct_def registered_def Let_def split: if_splits sum.splits option.splits)

lemma construct_old:
  assumes "registered w source ident = Some h'" "construct B ident source w = Inr (h, w1)"
  shows "h = h' \<and> w1 = w"
  using assms by (auto simp: construct_def split: if_splits)

lemma construct_registers:
  "construct B ident source w = Inr (h, w1) \<Longrightarrow> registered w1 source ident = Some h"
proof (cases "registered w source ident")
  case None
  assume "construct B ident source w = Inr (h, w1)"
  from construct_new [OF None this] show ?thesis by auto
next
  case (Some h')
  assume "construct B ident source w = Inr (h, w1)"
  from construct_old [OF Some this] Some show ?thesis by simp
qed

lemma construct_keeps_registered:
  assumes "registered w source ident = Some h" "construct B ident' source' w = Inr (h', w1)"
  shows "registered w1 source ident = Some h"
proof (cases "registered w source' ident'")
  case None
  from construct_new [OF None assms(2)] assms(1) None show ?thesis by auto
next
  case (Some i)
  from construct_old [OF Some assms(2)] assms(1) show ?thesis by simp
qed

lemma consistent_construct:
  assumes "consistent w" "construct B ident source w = Inr (h, w1)"
  shows "consistent w1"
proof (cases "registered w source ident")
  case (Some h')
  from construct_old [OF Some assms(2)] assms(1) show ?thesis by simp
next
  case None
  from construct_new [OF None assms(2)] obtain db where
    init: "initializeFromProperties B (new_database ident source) (sources w source) = Inr db"
    and h: "h = length (instances w)"
    and inst: "instances w1 = instances w @ [db]"
    and reg: "\<And>source' ident'. registered w1 source' ident' =
              (if source' = source \<and> ident' = ident then Some h
               else registered w source' ident')"
    by blast
  from init have "same_store (new_database ident source) db"
    by (rule initializeFromProperties_same_store)
  then have db: "databaseId db = ident" "storageSource db = source"
    by (simp_all add: same_store_def new_database_def)
  show ?thesis
    unfolding consistent_def
  proof (intro allI impI)
    fix source' ident' i
    assume r: "registered w1 source' ident' = Some i"
    show "i < length (instances w1) \<and> databaseId (instances w1 ! i) = ident' \<and>
          storageSource (instances w1 ! i) = source'"
    proof (cases "source' = source \<and> ident' = ident")
      case True
      with r reg have "i = h" by simp
      with True h inst db show ?thesis by simp
    next
      case False
      with r reg have "registered w source' ident' = Some i" by auto
      with assms(1) have "i < length (instances w)" "databaseId (instances w ! i) = ident'"
        "storageSource (instances w ! i) = source'"
        by (auto simp: consistent_def)
      with inst show ?thesis by (simp add: nth_append)
    qed
  qed
qed

lemma exec_keeps_registered:
  "registered w source ident = Some h \<Longrightarrow> registered (exec B c w) source ident = Some h"
proof (cases c)
  case (New ident' source')
  assume r: "registered w source ident = Some h"
  show ?thesis
  proof (cases "construct B ident' source' w")
    case (Inl e)
    with New r show ?thesis by simp
  next
    case (Inr p)
    obtain h' w1 where "p = (h', w1)" by (cases p)
    with Inr New r construct_keeps_registered [of w source ident h B ident' source' h' w1]
    show ?thesis by simp
  qed
qed simp_all

lemma run_keeps_registered:
  "registered w source ident = Some h \<Longrightarrow> registered (run B cmds w) source ident = Some h"
  unfolding run_def
  by (induction cmds arbitrary: w) (simp_all add: exec_keeps_registered)

lemma consistent_exec:
  assumes "consistent w"
  shows "consistent (exec B c w)"
proof (cases c)
  case (New ident source)
  show ?thesis
  proof (cases "construct B ident source w")
    case (Inl e)
    with New assms show ?thesis by simp
  next
    case (Inr p)
    obtain h w1 where "p = (h, w1)" by (cases p)
    with Inr New consistent_construct [OF assms, of B ident source h w1] show ?thesis by simp
  qed
next
  case (Set h key v)
  have "same_store db (fst (case set_value B db s key v of Inl e \<Rightarrow> (db, s) | Inr r \<Rightarrow> r))" for db s
    by (auto split: sum.splits dest: set_value_same_store)
  with Set assms show ?thesis by (simp add: consistent_on_instance)
next
  case (Get h key)
  have "same_store db (fst (case get_value B db s key of Inl e \<Rightarrow> (db, s) | Inr (v, db1) \<Rightarrow> (db1, s)))"
    for db s
    by (auto split: sum.splits dest: get_value_same_store)
  with Get assms show ?thesis by (simp add: consistent_on_instance)
next
  case (Delete h key)
  have "same_store db (fst (case delete db s key of Inl e \<Rightarrow> (db, s)
          | Inr (existed, db1, s1) \<Rightarrow> (db1, s1)))" for db s
    by (auto split: sum.splits dest: delete_same_store)
  with Delete assms show ?thesis by (simp add: consistent_on_instance)
next
  case (DeleteValue h key)
  have "same_store db (fst (case set_value B db s key Undefined of Inl e \<Rightarrow> (db, s) | Inr r \<Rightarrow> r))"
    for db s
    by (auto split: sum.splits dest: set_value_same_store)
  with DeleteValue assms show ?thesis by (simp add: consistent_on_instance)
next
  case (Clear h)
  with assms show ?thesis by (simp add: consistent_on_instance clear_same_store)
next
  case (Load h key)
  have "same_store db (fst (case load B db s key of Inl e \<Rightarrow> (db, s) | Inr db1 \<Rightarrow> (db1, s)))"
    for db s
    by (auto split: sum.splits dest: load_same_store)
  with Load assms show ?thesis by (simp add: consistent_on_instance)
next
  case (Unload h key)
  with assms show ?thesis by (simp add: consistent_on_instance unload_def)
next
  case (EnableCache h)
  with assms show ?thesis by (simp add: consistent_on_instance enableCache_def)
next
  case (DisableCache h)
  with assms show ?thesis by (simp add: consistent_on_instance disableCache_def)
qed

lemma consistent_run: "consistent w \<Longrightarrow> consistent (run B cmds w)"
  unfolding run_def
  by (induction cmds arbitrary: w) (simp_all add: consistent_exec)

lemma consistent_start: "consistent (start_world stores)"
  by (simp add: consistent_def registered_def start_world_def)

text \<open>
  C7. In a process that has started with an empty registry and has made any calls, let
  a construction with a source and a database id return a handle. Then, after any
  further calls, the handle still refers to an existing instance with that database id
  and that source, the pair is still registered under it, and a construction (or the
  static \<open>get\<close>) with the same pair returns that same handle and changes nothing: both
  callers hold the one instance, and so see the same index, cache and property store. A
  construction with any other pair returns another handle.
\<close>

theorem construct_returns_registered_instance:
  assumes "construct B ident source (run B earlier (start_world stores)) = Inr (h, w1)"
  shows "h < length (instances (run B later w1)) \<and>
         databaseId (instances (run B later w1) ! h) = ident \<and>
         storageSource (instances (run B later w1) ! h) = source \<and>
         registered (run B later w1) source ident = Some h \<and>
         construct B ident source (run B later w1) = Inr (h, run B later w1) \<and>
         Database_get B ident source (run B later w1) = Inr (h, run B later w1) \<and>
         (\<forall>ident' source' h' w3.
            construct B ident' source' (run B later w1) = Inr (h', w3) \<longrightarrow>
            (ident', source') \<noteq> (ident, source) \<longrightarrow> h' \<noteq> h)"
proof -
  let ?w2 = "run B later w1"
  have "consistent (run B earlier (start_world stores))"
    by (rule consistent_run) (rule consistent_start)
  from this assms have "consistent w1"
    by (rule consistent_construct)
  then have c2: "consistent ?w2"
    by (rule consistent_run)
  from assms have id: "trim ident \<noteq> []"
    by (rule construct_valid_id)
  from assms have "registered w1 source ident = Some h"
    by (rule construct_registers)
  then have reg: "registered ?w2 source ident = Some h"
    by (rule run_keeps_registered)
  from c2 reg have inst: "h < length (instances ?w2)" "databaseId (instances ?w2 ! h) = ident"
    "storageSource (instances ?w2 ! h) = source"
    by (rule consistentD)+
  from id reg have again: "construct B ident source ?w2 = Inr (h, ?w2)"
    by (rule construct_registered)
  have other: "h' \<noteq> h"
    if c: "construct B ident' source' ?w2 = Inr (h', w3)" and ne: "(ident', source') \<noteq> (ident, source)"
    for ident' source' h' w3
  proof
    assume eq: "h' = h"
    from c2 c have c3: "consistent w3" by (rule consistent_construct)
    from c have r': "registered w3 source' ident' = Some h'" by (rule construct_registers)
    from c3 r' have a: "databaseId (instances w3 ! h') = ident'" "storageSource (instances w3 ! h') = source'"
      by (rule consistentD)+
    from reg c have r: "registered w3 source ident = Some h" by (rule construct_keeps_registered)
    from c3 r have b: "databaseId (instances w3 ! h) = ident" "storageSource (instances w3 ! h) = source"
      by (rule consistentD)+
    from a b eq have "ident' = ident" "source' = source" by simp_all
    with ne show False by simp
  qed
  have get: "Database_get B ident source ?w2 = Inr (h, ?w2)"
    using again by (simp only: Database_get_def)
  have distinct: "\<forall>ident' source' h' w3.
      construct B ident' source' ?w2 = Inr (h', w3) \<longrightarrow>
      (ident', source') \<noteq> (ident, source) \<longrightarrow> h' \<noteq> h"
    using other by blast
  show ?thesis
    by (intro conjI) (rule inst reg again get distinct)+
qed

theorem construct_returns_registered_instance_witness:
  "\<exists>w1. construct silent_builtins (ascii ''db'') 0
           (run silent_builtins [] (start_world (\<lambda>_. empty_substrate))) = Inr (0, w1) \<and>
     construct silent_builtins (ascii ''db'') 0
       (run silent_builtins [Set 0 (ascii ''k'') (Num 1), Clear 0, New (ascii ''other'') 0] w1) =
     Inr (0, run silent_builtins [Set 0 (ascii ''k'') (Num 1), Clear 0, New (ascii ''other'') 0] w1) \<and>
     databaseId (instances
       (run silent_builtins [Set 0 (ascii ''k'') (Num 1), Clear 0, New (ascii ''other'') 0] w1) ! 0) =
       ascii ''db''"
proof -
  have "trim (ascii ''db'') \<noteq> []"
    by (simp add: trim_def ascii_def is_space_def)
  moreover have "literal_pattern (fullPrefixBase (new_database (ascii ''db'') 0))"
    by (simp add: literal_pattern_def new_database_def INTERNAL_DB_PREFIX_def ascii_def)
  ultimately obtain w1 where first: "construct silent_builtins (ascii ''db'') 0
      (run silent_builtins [] (start_world (\<lambda>_. empty_substrate))) = Inr (0, w1)"
    by (simp add: construct_def registered_def start_world_def run_def
        initializeFromProperties_def keyRegex_def Let_def)
  from construct_returns_registered_instance [OF first] first show ?thesis
    by blast
qed

end
